theory Spec2Isabelle
  imports Main "HOL-Library.Word"
begin

section \<open>Qt values seen by LogData\<close>

text \<open>
  LogData (src/logdata/src/logdata.cpp) is the facade of the log-data core. It reads a
  QFile, decodes bytes with a QTextCodec and hands operations to a worker thread. Qt is a
  library, not part of the repository, so its objects are modelled by what LogData
  observes of them:
  \<^item> a QByteArray is a list of bytes, a QString a list of 16-bit code units;
  \<^item> \<open>QString::chop(n)\<close> removes \<open>n\<close> code units from the end, and empties a string
    that has no more than \<open>n\<close>;
  \<^item> a QDateTime is a time stamp, \<open>None\<close> for the invalid \<open>QDateTime()\<close>;
  \<^item> Qt keeps one QTextCodec object for each MIB number, so a codec is modelled by that
    number. A codec pointer is an option: \<open>QTextCodec::codecForName\<close> returns
    \<open>nullptr\<close> for a name it does not know. What a codec decodes
    (\<open>toUnicode\<close>) and its EncodingParameters are parameters of the functions that use
    them.
\<close>

type_synonym byte = "8 word"
type_synonym QByteArray = "byte list"
type_synonym QChar = "16 word"
type_synonym QString = "QChar list"
type_synonym QDateTime = "nat option"

datatype QTextCodec = Codec (mibEnum: int)

definition chop :: "nat \<Rightarrow> QString \<Rightarrow> QString" where
  "chop n s = take (length s - n) s"

text \<open>
  The files on disk, by name, as \<open>QFileInfo\<close> sees them: the bytes of the file that has
  the name now, and its modification time.
\<close>

record DiskFile =
  bytes :: QByteArray
  lastModified :: nat

type_synonym Disk = "string \<Rightarrow> DiskFile option"

definition QFileInfo_size :: "Disk \<Rightarrow> string \<Rightarrow> nat" where
  "QFileInfo_size disk name = (case disk name of None \<Rightarrow> 0 | Some df \<Rightarrow> length (bytes df))"

definition QFileInfo_exists :: "Disk \<Rightarrow> string \<Rightarrow> bool" where
  "QFileInfo_exists disk name = (disk name \<noteq> None)"

definition QFileInfo_lastModified :: "Disk \<Rightarrow> string \<Rightarrow> QDateTime" where
  "QFileInfo_lastModified disk name = map_option lastModified (disk name)"

text \<open>
  A QFile: its name, the device (\<open>None\<close> is \<open>QIODevice::NotOpen\<close>; \<open>Some bs\<close> is a
  file opened read-only whose bytes are \<open>bs\<close>, which need not be the file that has the
  name now), the read position, and a count of the calls that touched the device, kept
  so that "the source was not read" can be stated.
\<close>

record QFile =
  fileName :: string
  device :: "QByteArray option"
  pos :: nat
  accesses :: nat

definition QFile_open :: "Disk \<Rightarrow> string \<Rightarrow> QFile" where
  \<comment> \<open>\<open>new QFile(name)\<close> followed by \<open>open(QIODevice::ReadOnly)\<close>; the open fails, and the
      device stays closed, when no file has the name\<close>
  "QFile_open disk name =
     \<lparr>fileName = name, device = map_option bytes (disk name), pos = 0, accesses = 0\<rparr>"

definition QFile_size :: "Disk \<Rightarrow> QFile \<Rightarrow> nat" where
  \<comment> \<open>\<open>QFile::size()\<close>: of the open device, or of the named file when the device is closed\<close>
  "QFile_size disk f =
     (case device f of None \<Rightarrow> QFileInfo_size disk (fileName f) | Some bs \<Rightarrow> length bs)"

definition seek :: "nat \<Rightarrow> QFile \<Rightarrow> QFile" where
  "seek p f =
     (case device f of
        None \<Rightarrow> f\<lparr>accesses := Suc (accesses f)\<rparr>
      | Some bs \<Rightarrow> f\<lparr>pos := p, accesses := Suc (accesses f)\<rparr>)"

fun line_at :: "QByteArray \<Rightarrow> QByteArray" where
  "line_at [] = []"
| "line_at (b # bs) = (if b = 0x0A then [b] else b # line_at bs)"

definition readLine :: "QFile \<Rightarrow> QByteArray \<times> QFile" where
  \<comment> \<open>\<open>QIODevice::readLine()\<close>: the bytes from the position up to and including the next
      \<open>\n\<close>, or up to the end of the device\<close>
  "readLine f =
     (case device f of
        None \<Rightarrow> ([], f\<lparr>accesses := Suc (accesses f)\<rparr>)
      | Some bs \<Rightarrow>
          (let l = line_at (drop (pos f) bs)
           in (l, f\<lparr>pos := pos f + length l, accesses := Suc (accesses f)\<rparr>)))"

definition read :: "nat \<Rightarrow> QFile \<Rightarrow> QByteArray \<times> QFile" where
  \<comment> \<open>\<open>QIODevice::read(maxSize)\<close>: at most \<open>maxSize\<close> bytes from the position\<close>
  "read maxSize f =
     (case device f of
        None \<Rightarrow> ([], f\<lparr>accesses := Suc (accesses f)\<rparr>)
      | Some bs \<Rightarrow>
          (let blob = take maxSize (drop (pos f) bs)
           in (blob, f\<lparr>pos := pos f + length blob, accesses := Suc (accesses f)\<rparr>)))"

section \<open>Indexing data and the worker thread\<close>

text \<open>
  Modelled from the spec: the class IndexingData is not under src/ (logdata.cpp only calls
  its accessors). The spec's data model gives it the size already indexed, the line ends
  (for each line the offset just past its terminator), the longest line's length, the
  guessed encoding and the optional forced encoding. Line numbers, counts and offsets are
  natural numbers; their types (LineNumber, LinesCount, LineOffset) are declared outside
  src/, and arithmetic beyond their upper bound is not modelled.
\<close>

record IndexingData =
  indexedSize :: nat
  linePosition :: "nat list"
  maxLength :: nat
  encodingGuess :: QTextCodec
  encodingForced :: "QTextCodec option"

definition getSize :: "IndexingData \<Rightarrow> nat" where
  "getSize idx = indexedSize idx"

definition getNbLines :: "IndexingData \<Rightarrow> nat" where
  "getNbLines idx = length (linePosition idx)"

definition getMaxLength :: "IndexingData \<Rightarrow> nat" where
  "getMaxLength idx = maxLength idx"

definition getPosForLine :: "IndexingData \<Rightarrow> nat \<Rightarrow> nat" where
  \<comment> \<open>the end of the line; LogData asks only for lines below \<open>getNbLines\<close>\<close>
  "getPosForLine idx line = linePosition idx ! line"

definition getEncodingGuess :: "IndexingData \<Rightarrow> QTextCodec" where
  "getEncodingGuess idx = encodingGuess idx"

definition getForcedEncoding :: "IndexingData \<Rightarrow> QTextCodec option" where
  "getForcedEncoding idx = encodingForced idx"

text \<open>
  The worker thread runs beside LogData. The model keeps the calls LogData makes on it,
  in order; an operation has started once its calls are in that list.
\<close>

datatype WorkerCall =
  AttachFileCall string
| IndexAllCall "QTextCodec option"
| IndexAdditionalLinesCall
| InterruptCall

datatype LogDataOperation =
  AttachOperation string
| FullIndexOperation "QTextCodec option"
| PartialIndexOperation

fun doStart :: "LogDataOperation \<Rightarrow> WorkerCall list \<Rightarrow> WorkerCall list" where
  "doStart (AttachOperation filename) w = w @ [AttachFileCall filename, IndexAllCall None]"
| "doStart (FullIndexOperation forcedEncoding) w = w @ [IndexAllCall forcedEncoding]"
| "doStart PartialIndexOperation w = w @ [IndexAdditionalLinesCall]"

section \<open>LogData\<close>

datatype MonitoredFileStatus = Unchanged | DataAdded | Truncated

datatype LoadingStatus = Successful | Interrupted | NoMemory

datatype Signal =
  LoadingFinished LoadingStatus
| FileChanged MonitoredFileStatus

text \<open>
  The members of LogData (a trailing underscore of the source is dropped; the member
  \<open>fileChangedOnDisk_\<close> is \<open>fileChangedOnDisk_state\<close>, since the slot has the same
  name). Three fields stand for objects outside LogData that its methods act on: the
  files the FileWatcher singleton watches, the signals emitted, and the lines logged at
  warning level (debug and info lines of LOG are left out).
\<close>

record LogData =
  indexing_data :: IndexingData
  attached_file :: "QFile option"
  currentOperation :: "LogDataOperation option"
  nextOperation :: "LogDataOperation option"
  codec :: "QTextCodec option"
  fileChangedOnDisk_state :: MonitoredFileStatus
  lastModifiedDate :: QDateTime
  workerThread :: "WorkerCall list"
  fileWatcher :: "string list"
  emitted :: "Signal list"
  warnings :: "string list"

text \<open>
  What stops a method: a dereferenced null pointer, a failed \<open>assert\<close>, a slice taken
  outside a byte array (all three end the program), and the one exception of the class.
\<close>

datatype fault = NullPointer | AssertionFailed | OutOfBlob

datatype exn = CantReattachErr

definition LogData_new :: "(string \<Rightarrow> QTextCodec option) \<Rightarrow> QTextCodec \<Rightarrow> LogData" where
  \<comment> \<open>the constructor; \<open>guess\<close> is the encoding guess of an empty IndexingData\<close>
  "LogData_new codecForName guess =
     \<lparr>indexing_data = \<lparr>indexedSize = 0, linePosition = [], maxLength = 0,
                        encodingGuess = guess, encodingForced = None\<rparr>,
      attached_file = None,
      currentOperation = None,
      nextOperation = None,
      codec = codecForName ''ISO-8859-1'',
      fileChangedOnDisk_state = Unchanged,
      lastModifiedDate = None,
      workerThread = [],
      fileWatcher = [],
      emitted = [],
      warnings = []\<rparr>"

definition startOperation :: "LogData \<Rightarrow> LogData" where
  "startOperation d =
     (case currentOperation d of
        None \<Rightarrow> d
      | Some operation \<Rightarrow> d\<lparr>workerThread := doStart operation (workerThread d)\<rparr>)"

definition enqueueOperation :: "LogDataOperation \<Rightarrow> LogData \<Rightarrow> LogData" where
  "enqueueOperation new_operation d =
     (if currentOperation d = None
      then startOperation (d\<lparr>currentOperation := Some new_operation\<rparr>)
      else d\<lparr>nextOperation := Some new_operation\<rparr>)"

definition attachFile :: "Disk \<Rightarrow> string \<Rightarrow> LogData \<Rightarrow> exn option \<times> LogData" where
  \<comment> \<open>the exception, if one is thrown, with the object as the throw leaves it\<close>
  "attachFile disk name d =
     (if attached_file d \<noteq> None then (Some CantReattachErr, d)
      else (None, enqueueOperation (AttachOperation name)
                    (d\<lparr>attached_file := Some (QFile_open disk name)\<rparr>)))"

definition interruptLoading :: "LogData \<Rightarrow> LogData" where
  "interruptLoading d = d\<lparr>workerThread := workerThread d @ [InterruptCall]\<rparr>"

definition getFileSize :: "LogData \<Rightarrow> nat" where
  "getFileSize d = getSize (indexing_data d)"

definition getLastModifiedDate :: "LogData \<Rightarrow> QDateTime" where
  "getLastModifiedDate d = lastModifiedDate d"

definition reOpenFile :: "Disk \<Rightarrow> LogData \<Rightarrow> fault + LogData" where
  "reOpenFile disk d =
     (case attached_file d of
        None \<Rightarrow> Inl NullPointer
      | Some f \<Rightarrow> Inr (d\<lparr>attached_file := Some (QFile_open disk (fileName f))\<rparr>))"

definition reload :: "Disk \<Rightarrow> QTextCodec option \<Rightarrow> LogData \<Rightarrow> fault + LogData" where
  "reload disk forcedEncoding d =
     (case reOpenFile disk (d\<lparr>workerThread := workerThread d @ [InterruptCall]\<rparr>) of
        Inl e \<Rightarrow> Inl e
      | Inr d1 \<Rightarrow> Inr (enqueueOperation (FullIndexOperation forcedEncoding) d1))"

section \<open>Slots\<close>

text \<open>
  \<open>fileChangedOnDisk\<close> does not look at the file name the watcher passes. The
  operation for a truncated file is \<open>std::make_shared<FullIndexOperation>\<close> called
  without arguments: a full index with no forced encoding.
\<close>

definition fileChangedOnDisk :: "Disk \<Rightarrow> string \<Rightarrow> LogData \<Rightarrow> fault + LogData" where
  "fileChangedOnDisk disk filename d =
     (case attached_file d of
        None \<Rightarrow> Inl NullPointer
      | Some f \<Rightarrow>
          (let name = fileName f;
               file_size = getSize (indexing_data d)
           in case (if QFileInfo_size disk name \<noteq> QFile_size disk f \<or> device f = None
                    then reOpenFile disk d else Inr d) of
                Inl e \<Rightarrow> Inl e
              | Inr d1 \<Rightarrow>
                  (case attached_file d1 of
                     None \<Rightarrow> Inl NullPointer
                   | Some f1 \<Rightarrow>
                       (let real_file_size = QFile_size disk f1;
                            (d2, newOperation) =
                              (if real_file_size < file_size
                               then (d1\<lparr>fileChangedOnDisk_state := Truncated\<rparr>,
                                     Some (FullIndexOperation None))
                               else if real_file_size = file_size
                               then (d1, None)
                               else if fileChangedOnDisk_state d1 \<noteq> DataAdded
                               then (d1\<lparr>fileChangedOnDisk_state := DataAdded\<rparr>,
                                     Some PartialIndexOperation)
                               else (d1, None))
                        in case newOperation of
                             None \<Rightarrow> Inr d2
                           | Some operation \<Rightarrow>
                               (let d3 = enqueueOperation operation d2
                                in Inr (d3\<lparr>lastModifiedDate := QFileInfo_lastModified disk name,
                                           emitted := emitted d3 @
                                             [FileChanged (fileChangedOnDisk_state d3)]\<rparr>))))))"

text \<open>
  \<open>indexingFinished\<close>: the \<open>assert\<close> on the current operation comes after the signal
  is emitted, and a failed \<open>assert\<close> ends the program whatever was done before it.
\<close>

definition indexingFinished :: "Disk \<Rightarrow> LoadingStatus \<Rightarrow> LogData \<Rightarrow> fault + LogData" where
  "indexingFinished disk status d =
     (case (if status = Successful
            then (case attached_file d of
                    None \<Rightarrow> Inl NullPointer
                  | Some f \<Rightarrow>
                      Inr (d\<lparr>fileChangedOnDisk_state := Unchanged,
                             fileWatcher := fileWatcher d @ [fileName f],
                             lastModifiedDate :=
                               (if QFileInfo_exists disk (fileName f)
                                then QFileInfo_lastModified disk (fileName f)
                                else None)\<rparr>))
            else Inr d) of
        Inl e \<Rightarrow> Inl e
      | Inr d1 \<Rightarrow>
          (let d2 = d1\<lparr>fileChangedOnDisk_state := Unchanged,
                       emitted := emitted d1 @ [LoadingFinished status]\<rparr>
           in if currentOperation d2 = None then Inl AssertionFailed
              else (let d3 = d2\<lparr>currentOperation := nextOperation d2, nextOperation := None\<rparr>
                    in if currentOperation d3 \<noteq> None then Inr (startOperation d3)
                       else Inr d3)))"

section \<open>Virtual functions\<close>

definition doGetNbLine :: "LogData \<Rightarrow> nat" where
  "doGetNbLine d = getNbLines (indexing_data d)"

definition doGetMaxLength :: "LogData \<Rightarrow> nat" where
  "doGetMaxLength d = getMaxLength (indexing_data d)"

text \<open>
  \<open>EncodingParameters\<close> is declared outside src/; it is a parameter here, compared
  with the equality of its type. A null codec from \<open>codecForName\<close> is dereferenced by
  \<open>codec_->mibEnum()\<close>.
\<close>

definition currentIndexCodec :: "IndexingData \<Rightarrow> QTextCodec" where
  \<comment> \<open>the local \<open>currentIndexCodec\<close>: the forced encoding, or the guess when none is forced\<close>
  "currentIndexCodec idx =
     (case getForcedEncoding idx of None \<Rightarrow> getEncodingGuess idx | Some forced \<Rightarrow> forced)"

definition doSetDisplayEncoding ::
  "(string \<Rightarrow> QTextCodec option) \<Rightarrow> (QTextCodec \<Rightarrow> 'p) \<Rightarrow> Disk \<Rightarrow> string \<Rightarrow> LogData
     \<Rightarrow> fault + LogData" where
  "doSetDisplayEncoding codecForName EncodingParameters disk encoding d =
     (let d1 = d\<lparr>codec := codecForName encoding\<rparr>
      in case codec d1 of
           None \<Rightarrow> Inl NullPointer
         | Some c \<Rightarrow>
             if mibEnum c \<noteq> mibEnum (currentIndexCodec (indexing_data d1))
             then if EncodingParameters c \<noteq>
                       EncodingParameters (currentIndexCodec (indexing_data d1))
                  then (let isGuessedCodec =
                              (mibEnum c = mibEnum (getEncodingGuess (indexing_data d1)))
                        in reload disk (if isGuessedCodec then None else Some c) d1)
                  else Inr d1
             else Inr d1)"

definition doGetDisplayEncoding :: "LogData \<Rightarrow> QTextCodec option" where
  "doGetDisplayEncoding d = codec d"

text \<open>
  Modelled from the spec: \<open>untabify\<close> is not under src/. The spec: a tab at column \<open>c\<close>
  advances to the next multiple of 8.
\<close>

fun untabify_from :: "nat \<Rightarrow> QString \<Rightarrow> QString" where
  "untabify_from col [] = []"
| "untabify_from col (c # cs) =
     (if c = 0x09
      then replicate (8 - col mod 8) 0x20 @ untabify_from (col + (8 - col mod 8)) cs
      else c # untabify_from (Suc col) cs)"

definition untabify :: "QString \<Rightarrow> QString" where
  "untabify s = untabify_from 0 s"

text \<open>
  The single-line reads. The mutex is not modelled. The functions return the string and
  the object, whose file has moved its position.
\<close>

definition doGetLineString ::
  "(QTextCodec \<Rightarrow> QByteArray \<Rightarrow> QString) \<Rightarrow> LogData \<Rightarrow> nat \<Rightarrow> fault + (QString \<times> LogData)" where
  "doGetLineString toUnicode d line =
     (if line \<ge> getNbLines (indexing_data d) then Inr ([], d)
      else case attached_file d of
             None \<Rightarrow> Inl NullPointer
           | Some f \<Rightarrow>
               (let f1 = seek (if line = 0 then 0
                               else getPosForLine (indexing_data d) (line - 1)) f;
                    (rawString, f2) = readLine f1
                in case codec d of
                     None \<Rightarrow> Inl NullPointer
                   | Some c \<Rightarrow>
                       Inr (chop 1 (toUnicode c rawString), d\<lparr>attached_file := Some f2\<rparr>)))"

definition doGetExpandedLineString ::
  "(QTextCodec \<Rightarrow> QByteArray \<Rightarrow> QString) \<Rightarrow> LogData \<Rightarrow> nat \<Rightarrow> fault + (QString \<times> LogData)" where
  "doGetExpandedLineString toUnicode d line =
     (if line \<ge> getNbLines (indexing_data d) then Inr ([], d)
      else case attached_file d of
             None \<Rightarrow> Inl NullPointer
           | Some f \<Rightarrow>
               (let f1 = seek (if line = 0 then 0
                               else getPosForLine (indexing_data d) (line - 1)) f;
                    (rawString, f2) = readLine f1
                in case codec d of
                     None \<Rightarrow> Inl NullPointer
                   | Some c \<Rightarrow>
                       Inr (chop 1 (untabify (toUnicode c rawString)),
                            d\<lparr>attached_file := Some f2\<rparr>)))"

definition doGetLineLength ::
  "(QTextCodec \<Rightarrow> QByteArray \<Rightarrow> QString) \<Rightarrow> LogData \<Rightarrow> nat \<Rightarrow> fault + (nat \<times> LogData)" where
  "doGetLineLength toUnicode d line =
     (if line \<ge> getNbLines (indexing_data d) then Inr (0, d)
      else case doGetExpandedLineString toUnicode d line of
             Inl e \<Rightarrow> Inl e
           | Inr (s, d1) \<Rightarrow> Inr (length s, d1))"

text \<open>
  The range reads. The loop of the source runs over the lines \<open>first_line .. last_line\<close>
  with \<open>beginning\<close> carried along; \<open>decode\<close> is what is done with each slice
  \<open>blob.data() + beginning\<close> of length \<open>end - beginning - 1\<close>. A slice that does not
  lie inside the blob is a read outside the array. The decoder made by
  \<open>makeDecoder\<close> is applied to each slice on its own: bytes it would hold back between
  two slices (an unfinished multi-byte sequence) are not modelled.
\<close>

fun lines_loop ::
  "(QByteArray \<Rightarrow> QString) \<Rightarrow> IndexingData \<Rightarrow> QByteArray \<Rightarrow> nat \<Rightarrow> nat \<Rightarrow> nat list
     \<Rightarrow> fault + QString list" where
  "lines_loop decode idx blob first_byte beginning [] = Inr []"
| "lines_loop decode idx blob first_byte beginning (line # rest) =
     (let end_byte = getPosForLine idx line - first_byte
      in if end_byte < beginning + 1 \<or> length blob < end_byte - 1 then Inl OutOfBlob
         else case lines_loop decode idx blob first_byte end_byte rest of
                Inl e \<Rightarrow> Inl e
              | Inr list \<Rightarrow>
                  Inr (decode (take (end_byte - beginning - 1) (drop beginning blob)) # list))"

definition doGetLines ::
  "(QTextCodec \<Rightarrow> QByteArray \<Rightarrow> QString) \<Rightarrow> LogData \<Rightarrow> nat \<Rightarrow> nat
     \<Rightarrow> fault + (QString list \<times> LogData)" where
  "doGetLines toUnicode d first_line number =
     (let last_line = first_line + number - 1
      in if number = 0 then Inr ([], d)
         else if last_line \<ge> getNbLines (indexing_data d)
         then Inr ([], d\<lparr>warnings := warnings d @
                              [''LogData::doGetLines Lines out of bound asked for'']\<rparr>)
         else (let first_byte = (if first_line = 0 then 0
                                 else getPosForLine (indexing_data d) (first_line - 1));
                   last_byte = getPosForLine (indexing_data d) last_line
               in case attached_file d of
                    None \<Rightarrow> Inl NullPointer
                  | Some f \<Rightarrow>
                      (let (blob, f2) = read (last_byte - first_byte) (seek first_byte f)
                       in case codec d of
                            None \<Rightarrow> Inl NullPointer
                          | Some c \<Rightarrow>
                              (case lines_loop (toUnicode c) (indexing_data d) blob first_byte 0
                                      [first_line ..< Suc last_line] of
                                 Inl e \<Rightarrow> Inl e
                               | Inr list \<Rightarrow> Inr (list, d\<lparr>attached_file := Some f2\<rparr>)))))"

definition doGetExpandedLines ::
  "(QTextCodec \<Rightarrow> QByteArray \<Rightarrow> QString) \<Rightarrow> LogData \<Rightarrow> nat \<Rightarrow> nat
     \<Rightarrow> fault + (QString list \<times> LogData)" where
  "doGetExpandedLines toUnicode d first_line number =
     (let last_line = first_line + number - 1
      in if number = 0 then Inr ([], d)
         else if last_line \<ge> getNbLines (indexing_data d)
         then Inr ([], d\<lparr>warnings := warnings d @
                              [''LogData::doGetExpandedLines Lines out of bound asked for'']\<rparr>)
         else (let first_byte = (if first_line = 0 then 0
                                 else getPosForLine (indexing_data d) (first_line - 1));
                   last_byte = getPosForLine (indexing_data d) last_line
               in case attached_file d of
                    None \<Rightarrow> Inl NullPointer
                  | Some f \<Rightarrow>
                      (let (blob, f2) = read (last_byte - first_byte) (seek first_byte f)
                       in case codec d of
                            None \<Rightarrow> Inl NullPointer
                          | Some c \<Rightarrow>
                              (case lines_loop (\<lambda>bs. untabify (toUnicode c bs)) (indexing_data d)
                                      blob first_byte 0 [first_line ..< Suc last_line] of
                                 Inl e \<Rightarrow> Inl e
                               | Inr list \<Rightarrow> Inr (list, d\<lparr>attached_file := Some f2\<rparr>)))))"

definition getDetectedEncoding :: "LogData \<Rightarrow> QTextCodec" where
  "getDetectedEncoding d = getEncodingGuess (indexing_data d)"

section \<open>The index of a file\<close>

text \<open>
  Modelled from the spec: the Indexer Worker (LogDataWorkerThread) is not under src/. The
  spec's scanning algorithm keeps a running byte position; for each \<open>\n\<close> it records the
  position of the following byte as a line end, and at the end of the file it appends
  any trailing partial line as a line without a terminator, whose end is the end of the
  file. \<open>partial\<close> tells whether bytes were read since the last line end.
\<close>

fun scan_line_ends :: "nat \<Rightarrow> bool \<Rightarrow> QByteArray \<Rightarrow> nat list" where
  "scan_line_ends p partial [] = (if partial then [p] else [])"
| "scan_line_ends p partial (b # bs) =
     (if b = 0x0A then Suc p # scan_line_ends (Suc p) False bs
      else scan_line_ends (Suc p) True bs)"

definition index_all :: "QTextCodec \<Rightarrow> QTextCodec option \<Rightarrow> nat \<Rightarrow> QByteArray \<Rightarrow> IndexingData" where
  \<comment> \<open>the indexing data after a successful full index of the bytes; the guess and the
      longest line's length are the worker's to compute and are taken as given\<close>
  "index_all guess forced longest bs =
     \<lparr>indexedSize = length bs, linePosition = scan_line_ends 0 False bs,
      maxLength = longest, encodingGuess = guess, encodingForced = forced\<rparr>"

text \<open>
  Modelled from the spec: the partial reindex of the Indexer Worker, which is not under
  src/ either. It scans from the size indexed so far to the end of the file and extends
  the line ends: the ends found before stay as they are.
\<close>

definition index_additional :: "IndexingData \<Rightarrow> QByteArray \<Rightarrow> IndexingData" where
  "index_additional idx bs =
     idx\<lparr>indexedSize := length bs,
         linePosition := linePosition idx @
           scan_line_ends (indexedSize idx) False (drop (indexedSize idx) bs)\<rparr>"

text \<open>ISO-8859-1, the codec of a new LogData: each byte is the code unit of the same value.\<close>

definition latin1 :: "QTextCodec \<Rightarrow> QByteArray \<Rightarrow> QString" where
  "latin1 c bs = map ucast bs"

definition fromLatin1 :: "string \<Rightarrow> QString" where
  "fromLatin1 s = map of_char s"

definition file_bytes :: "string \<Rightarrow> QByteArray" where
  "file_bytes s = map of_char s"

section \<open>Vocabulary of the specification, and example objects\<close>

text \<open>
  The spec writes \<open>source_bytes[a .. b]\<close> for the bytes from offset \<open>a\<close> up to, and not
  including, offset \<open>b\<close>, and \<open>prev_end(i)\<close> for the start of line \<open>i\<close>: 0 for line 0,
  else the end of the line before.
\<close>

definition source_bytes :: "QByteArray \<Rightarrow> nat \<Rightarrow> nat \<Rightarrow> QByteArray" where
  "source_bytes bs a b = take (b - a) (drop a bs)"

definition prev_end :: "IndexingData \<Rightarrow> nat \<Rightarrow> nat" where
  "prev_end idx i = (if i = 0 then 0 else linePosition idx ! (i - 1))"

definition bytes_before_newline :: "QByteArray \<Rightarrow> nat \<Rightarrow> QByteArray" where
  \<comment> \<open>the bytes from offset \<open>a\<close> up to the next \<open>\n\<close>, or to the end of the bytes\<close>
  "bytes_before_newline bs a = takeWhile (\<lambda>b. b \<noteq> 0x0A) (drop a bs)"

definition file_after_check :: "Disk \<Rightarrow> QFile \<Rightarrow> QFile" where
  \<comment> \<open>the attached file after the size check of \<open>fileChangedOnDisk\<close>: opened anew when
      the named file's size is not the open file's, or when the file is not open\<close>
  "file_after_check disk f =
     (if QFileInfo_size disk (fileName f) \<noteq> QFile_size disk f \<or> device f = None
      then QFile_open disk (fileName f) else f)"

definition returned :: "fault + ('a \<times> LogData) \<Rightarrow> fault + 'a" where
  "returned r = map_sum id fst r"

definition operation_queue ::
  "LogData \<Rightarrow> LogDataOperation option \<times> LogDataOperation option \<times> WorkerCall list" where
  \<comment> \<open>the running operation, the pending one, and the calls made on the worker\<close>
  "operation_queue d = (currentOperation d, nextOperation d, workerThread d)"

text \<open>
  The claim about \<open>get_line(i)\<close> as the spec words it, for a LogData with an open file
  and a codec: the string returned is the decoding of \<open>source_bytes[prev_end(i) ..
  line_ends[i] - 1]\<close>, and exactly one trailing terminator code unit was stripped, that
  is, the line read from the file decodes to the string returned followed by the decoding
  of \<open>\n\<close>.
\<close>

definition get_line_claim ::
  "(QTextCodec \<Rightarrow> QByteArray \<Rightarrow> QString) \<Rightarrow> LogData \<Rightarrow> nat \<Rightarrow> bool" where
  "get_line_claim toUnicode d i =
     (case attached_file d of
        None \<Rightarrow> False
      | Some f \<Rightarrow>
          (case device f of
             None \<Rightarrow> False
           | Some bs \<Rightarrow>
               (case codec d of
                  None \<Rightarrow> False
                | Some c \<Rightarrow>
                    returned (doGetLineString toUnicode d i) =
                      Inr (toUnicode c
                             (source_bytes bs (prev_end (indexing_data d) i)
                                (getPosForLine (indexing_data d) i - 1))) \<and>
                    toUnicode c (fst (readLine (seek (prev_end (indexing_data d) i) f))) =
                      toUnicode c
                        (source_bytes bs (prev_end (indexing_data d) i)
                           (getPosForLine (indexing_data d) i - 1)) @
                      toUnicode c [0x0A])))"

text \<open>
  Example objects: a disk with one file, \<open>app.log\<close>, and a LogData attached to it whose
  index is that of a successful full index of \<open>indexed\<close>, while the file holds
  \<open>on_disk\<close>. All codec names resolve; ISO-8859-1 has MIB number 4, UTF-16LE 1014.
\<close>

definition example_disk :: "string \<Rightarrow> Disk" where
  "example_disk on_disk = [''app.log'' \<mapsto> \<lparr>bytes = file_bytes on_disk, lastModified = 7\<rparr>]"

definition example_codecs :: "string \<Rightarrow> QTextCodec option" where
  "example_codecs name =
     (if name = ''ISO-8859-1'' then Some (Codec 4)
      else if name = ''ISO-8859-15'' then Some (Codec 111)
      else if name = ''UTF-16LE'' then Some (Codec 1014)
      else None)"

definition example_parameters :: "QTextCodec \<Rightarrow> nat" where
  \<comment> \<open>the width in bytes of a line feed\<close>
  "example_parameters c = (if mibEnum c = 1014 then 2 else 1)"

definition example_log :: "string \<Rightarrow> string \<Rightarrow> LogData" where
  "example_log indexed on_disk =
     (LogData_new example_codecs (Codec 4))
       \<lparr>indexing_data := index_all (Codec 4) None 0 (file_bytes indexed),
        attached_file := Some (QFile_open (example_disk on_disk) ''app.log'')\<rparr>"

text \<open>
  A LogData whose file was indexed in full when it held \<open>indexed\<close> and then again, by a
  partial reindex, when it had grown to \<open>grown\<close>, which it still holds.
\<close>

definition example_log_extended :: "string \<Rightarrow> string \<Rightarrow> LogData" where
  "example_log_extended indexed grown =
     (example_log indexed grown)
       \<lparr>indexing_data :=
          index_additional (index_all (Codec 4) None 0 (file_bytes indexed)) (file_bytes grown)\<rparr>"

section \<open>The index and the bytes of a line\<close>

lemma line_at_prefix: "take (length (line_at bs)) bs = line_at bs"
  by (induction bs) auto

lemma line_at_length: "length (line_at bs) \<le> length bs"
  by (induction bs) auto

lemma line_at_nonempty: "bs \<noteq> [] \<Longrightarrow> line_at bs \<noteq> []"
  by (cases bs) auto

lemma scan_step:
  "bs \<noteq> [] \<Longrightarrow>
   scan_line_ends p partial bs =
     (p + length (line_at bs)) #
       scan_line_ends (p + length (line_at bs)) False (drop (length (line_at bs)) bs)"
proof (induction bs arbitrary: p partial)
  case Nil
  then show ?case by simp
next
  case (Cons b bs)
  show ?case
  proof (cases "b = 0x0A")
    case True
    then show ?thesis by simp
  next
    case False
    show ?thesis
    proof (cases bs)
      case Nil
      with False show ?thesis by simp
    next
      case (Cons c cs)
      then have "bs \<noteq> []" by simp
      from Cons.IH [OF this, of "Suc p" True] False show ?thesis by simp
    qed
  qed
qed

lemma scan_lines:
  "i < length (scan_line_ends p False bs) \<Longrightarrow>
   (let les = scan_line_ends p False bs;
        st = (if i = 0 then p else les ! (i - 1))
    in p \<le> st \<and> st < les ! i \<and> les ! i \<le> p + length bs \<and>
       line_at (drop (st - p) bs) = take (les ! i - st) (drop (st - p) bs))"
proof (induction i arbitrary: p bs)
  case 0
  then have ne: "bs \<noteq> []" by (cases bs) auto
  have l: "0 < length (line_at bs)" using line_at_nonempty [OF ne] by simp
  show ?case
    using l line_at_length [of bs] line_at_prefix [of bs]
    by (simp add: scan_step [OF ne, of p False] Let_def)
next
  case (Suc j)
  then have ne: "bs \<noteq> []" by (cases bs) auto
  define l where "l = length (line_at bs)"
  define rest where "rest = drop l bs"
  define les' where "les' = scan_line_ends (p + l) False rest"
  define st where "st = (if j = 0 then p + l else les' ! (j - 1))"
  have step: "scan_line_ends p False bs = (p + l) # les'"
    unfolding les'_def rest_def l_def by (rule scan_step [OF ne])
  from Suc.prems step have j: "j < length (scan_line_ends (p + l) False rest)"
    by (simp add: les'_def)
  have ih: "p + l \<le> st \<and> st < les' ! j \<and> les' ! j \<le> p + l + length rest \<and>
      line_at (drop (st - (p + l)) rest) = take (les' ! j - st) (drop (st - (p + l)) rest)"
    using Suc.IH [OF j] unfolding Let_def les'_def [symmetric] st_def [symmetric] .
  have st_eq: "((p + l) # les') ! j = st"
    unfolding st_def by (cases j) auto
  have dr: "drop (st - (p + l)) rest = drop (st - p) bs"
    using ih unfolding rest_def by (simp add: add.commute)
  have len: "p + l + length rest = p + length bs"
    unfolding rest_def l_def using line_at_length [of bs] by simp
  have "p \<le> st \<and> st < les' ! j \<and> les' ! j \<le> p + length bs \<and>
      line_at (drop (st - p) bs) = take (les' ! j - st) (drop (st - p) bs)"
    using ih dr len by auto
  then show ?case
    unfolding Let_def step using st_eq by simp
qed


lemma scan_prev_end:
  assumes idx: "linePosition idx = scan_line_ends 0 False bs"
    and i: "i < getNbLines idx"
  shows "prev_end idx i < getPosForLine idx i \<and> getPosForLine idx i \<le> length bs \<and>
         line_at (drop (prev_end idx i) bs) = source_bytes bs (prev_end idx i) (getPosForLine idx i)"
proof -
  have i': "i < length (scan_line_ends 0 False bs)"
    using i by (simp add: getNbLines_def idx)
  have pe: "(if i = 0 then 0 else scan_line_ends 0 False bs ! (i - 1)) = prev_end idx i"
    by (simp add: prev_end_def idx)
  have ge: "scan_line_ends 0 False bs ! i = getPosForLine idx i"
    by (simp add: getPosForLine_def idx)
  show ?thesis
    using scan_lines [OF i'] unfolding Let_def pe ge source_bytes_def by simp
qed

lemma prev_end_Suc: "prev_end idx (Suc i) = getPosForLine idx i"
  by (simp add: prev_end_def getPosForLine_def)

lemma line_ends_mono:
  assumes idx: "linePosition idx = scan_line_ends 0 False bs"
  shows "a \<le> b \<Longrightarrow> b < getNbLines idx \<Longrightarrow> getPosForLine idx a \<le> getPosForLine idx b"
proof (induction b)
  case 0
  then show ?case by simp
next
  case (Suc b)
  show ?case
  proof (cases "a = Suc b")
    case True
    then show ?thesis by simp
  next
    case False
    with Suc.prems have "a \<le> b" and "b < getNbLines idx" by simp_all
    then have "getPosForLine idx a \<le> getPosForLine idx b" by (rule Suc.IH)
    also have "getPosForLine idx b < getPosForLine idx (Suc b)"
      using scan_prev_end [OF idx Suc.prems(2)] by (simp add: prev_end_Suc)
    finally show ?thesis by simp
  qed
qed

lemma prev_end_mono:
  assumes idx: "linePosition idx = scan_line_ends 0 False bs"
    and ab: "a \<le> b" and b: "b < getNbLines idx"
  shows "prev_end idx a \<le> prev_end idx b"
proof (cases a)
  case 0
  then show ?thesis by (simp add: prev_end_def)
next
  case (Suc a')
  with ab obtain b' where b': "b = Suc b'" by (cases b) auto
  with Suc ab b have "a' \<le> b'" and "b' < getNbLines idx" by simp_all
  then show ?thesis
    unfolding Suc b' prev_end_Suc by (rule line_ends_mono [OF idx])
qed

lemma first_byte_prev_end:
  "(if line = 0 then 0 else getPosForLine idx (line - 1)) = prev_end idx line"
  by (simp add: prev_end_def getPosForLine_def)

lemma readLine_indexed:
  assumes dev: "device f = Some bs"
    and idx: "linePosition idx = scan_line_ends 0 False bs"
    and i: "i < getNbLines idx"
  shows "readLine (seek (prev_end idx i) f) =
     (source_bytes bs (prev_end idx i) (getPosForLine idx i),
      f\<lparr>pos := getPosForLine idx i, accesses := Suc (Suc (accesses f))\<rparr>)"
proof -
  from scan_prev_end [OF idx i]
  have lt: "prev_end idx i < getPosForLine idx i" and le: "getPosForLine idx i \<le> length bs"
    and la: "line_at (drop (prev_end idx i) bs) =
      source_bytes bs (prev_end idx i) (getPosForLine idx i)"
    by blast+
  have len: "length (source_bytes bs (prev_end idx i) (getPosForLine idx i)) =
      getPosForLine idx i - prev_end idx i"
    using lt le by (simp add: source_bytes_def)
  show ?thesis
    using dev lt by (simp add: readLine_def seek_def Let_def la len)
qed

lemma read_indexed:
  assumes dev: "device f = Some bs"
  shows "read (b - a) (seek a f) =
     (source_bytes bs a b, f\<lparr>pos := a + length (source_bytes bs a b),
                              accesses := Suc (Suc (accesses f))\<rparr>)"
  using dev by (simp add: read_def seek_def Let_def source_bytes_def)

lemma source_bytes_butlast:
  assumes "a < b" and "b \<le> length bs"
  shows "source_bytes bs a b = source_bytes bs a (b - 1) @ [bs ! (b - 1)]"
proof -
  define m where "m = b - 1 - a"
  have ba: "b - a = Suc m" and am: "a + m = b - 1" and ml: "m < length (drop a bs)"
    using assms by (simp_all add: m_def)
  have "take (Suc m) (drop a bs) = take m (drop a bs) @ [drop a bs ! m]"
    using ml by (rule take_Suc_conv_app_nth)
  moreover have "drop a bs ! m = bs ! (b - 1)"
    using assms am by simp
  ultimately show ?thesis
    unfolding source_bytes_def ba m_def [symmetric] by simp
qed

lemma chop_snoc: "chop 1 (s @ [x]) = s"
  by (simp add: chop_def)

lemma chop_decoded_line:
  assumes bytewise: "\<forall>xs. toUnicode c xs = map u xs"
    and "a < b" and "b \<le> length bs"
  shows "chop 1 (toUnicode c (source_bytes bs a b)) = toUnicode c (source_bytes bs a (b - 1))"
proof -
  have "toUnicode c (source_bytes bs a b) =
      toUnicode c (source_bytes bs a (b - 1)) @ [u (bs ! (b - 1))]"
    unfolding source_bytes_butlast [OF assms(2,3)] using bytewise by simp
  then show ?thesis
    by (simp only: chop_snoc)
qed

lemma doGetLineString_indexed:
  assumes att: "attached_file d = Some f" and dev: "device f = Some bs"
    and cod: "codec d = Some c"
    and idx: "linePosition (indexing_data d) = scan_line_ends 0 False bs"
    and i: "i < getNbLines (indexing_data d)"
  shows "doGetLineString toUnicode d i =
           Inr (chop 1 (toUnicode c (source_bytes bs (prev_end (indexing_data d) i)
                                       (getPosForLine (indexing_data d) i))),
                d\<lparr>attached_file :=
                    Some (f\<lparr>pos := getPosForLine (indexing_data d) i,
                            accesses := Suc (Suc (accesses f))\<rparr>)\<rparr>)"
  using i att cod
  by (simp add: doGetLineString_def first_byte_prev_end readLine_indexed [OF dev idx i])

lemma line_at_newline:
  "0x0A \<in> set xs \<Longrightarrow> line_at xs = takeWhile (\<lambda>b. b \<noteq> 0x0A) xs @ [0x0A]"
  by (induction xs) auto

lemma bytes_before_newline_range:
  "bytes_before_newline bs a = source_bytes bs a (a + length (bytes_before_newline bs a))"
  by (simp add: bytes_before_newline_def source_bytes_def takeWhile_eq_take [symmetric])

lemma readLine_newline:
  assumes dev: "device f = Some bs" and nl: "0x0A \<in> set (drop a bs)"
  shows "readLine (seek a f) =
     (bytes_before_newline bs a @ [0x0A],
      f\<lparr>pos := a + length (bytes_before_newline bs a) + 1,
        accesses := Suc (Suc (accesses f))\<rparr>)"
  using dev by (simp add: readLine_def seek_def Let_def line_at_newline [OF nl]
      bytes_before_newline_def)

section \<open>Reading one line\<close>

text \<open>
  The claim C1 as the spec words it: for every attached file and every line \<open>i\<close> below
  the number of lines, \<open>get_line(i)\<close> is the decoding of the bytes from \<open>prev_end(i)\<close>
  up to, and not including, offset \<open>line_ends[i] - 1\<close>, with exactly one trailing
  terminator code unit stripped. It fails on two files. The file \<open>one\ntwo\<close> has no
  newline at its end: \<open>doGetLineString\<close> returns \<open>tw\<close> for line 1, and the unit it
  stripped is the \<open>o\<close>, not a terminator (the slip of C2). When that file grows to
  \<open>one\ntwo\nthree\n\<close> and a partial reindex extends the index to the line ends 4, 7, 8
  and 14, \<open>doGetLineString\<close> returns \<open>two\<close> for line 1, while the bytes from 4 up to
  \<open>line_ends[1] - 1 = 6\<close> are \<open>tw\<close>: the function reads up to the newline it finds in
  the file and never looks at \<open>line_ends[i]\<close>.
\<close>

theorem get_line_claim_counterexample:
  "1 < doGetNbLine (example_log ''one\<newline>two'' ''one\<newline>two'') \<and>
   returned (doGetLineString latin1 (example_log ''one\<newline>two'' ''one\<newline>two'') 1) =
     Inr (fromLatin1 ''tw'') \<and>
   \<not> get_line_claim latin1 (example_log ''one\<newline>two'' ''one\<newline>two'') 1 \<and>
   linePosition (indexing_data
      (example_log_extended ''one\<newline>two'' ''one\<newline>two\<newline>three\<newline>'')) = [4, 7, 8, 14] \<and>
   returned (doGetLineString latin1
      (example_log_extended ''one\<newline>two'' ''one\<newline>two\<newline>three\<newline>'') 1) =
     Inr (fromLatin1 ''two'') \<and>
   \<not> get_line_claim latin1
      (example_log_extended ''one\<newline>two'' ''one\<newline>two\<newline>three\<newline>'') 1"
proof (intro conjI)
  let ?A = "example_log ''one\<newline>two'' ''one\<newline>two''"
  let ?B = "example_log_extended ''one\<newline>two'' ''one\<newline>two\<newline>three\<newline>''"
  show "1 < doGetNbLine ?A"
    by (simp add: doGetNbLine_def getNbLines_def example_log_def index_all_def file_bytes_def)
  show "returned (doGetLineString latin1 ?A 1) = Inr (fromLatin1 ''tw'')"
    by (simp add: getNbLines_def example_log_def index_all_def file_bytes_def
        returned_def doGetLineString_def LogData_new_def example_codecs_def QFile_open_def
        example_disk_def seek_def readLine_def getPosForLine_def latin1_def chop_def
        fromLatin1_def Let_def)
  show "\<not> get_line_claim latin1 ?A 1"
    by (simp add: get_line_claim_def getNbLines_def example_log_def index_all_def
        file_bytes_def returned_def doGetLineString_def LogData_new_def example_codecs_def
        QFile_open_def example_disk_def seek_def readLine_def getPosForLine_def latin1_def
        chop_def prev_end_def source_bytes_def Let_def)
  show "linePosition (indexing_data ?B) = [4, 7, 8, 14]"
    by (simp add: example_log_extended_def index_additional_def index_all_def file_bytes_def)
  show "returned (doGetLineString latin1 ?B 1) = Inr (fromLatin1 ''two'')"
    by (simp add: example_log_extended_def index_additional_def getNbLines_def
        example_log_def index_all_def file_bytes_def
        returned_def doGetLineString_def LogData_new_def example_codecs_def QFile_open_def
        example_disk_def seek_def readLine_def getPosForLine_def latin1_def chop_def
        fromLatin1_def Let_def)
  show "\<not> get_line_claim latin1 ?B 1"
    by (simp add: get_line_claim_def example_log_extended_def index_additional_def
        getNbLines_def example_log_def index_all_def
        file_bytes_def returned_def doGetLineString_def LogData_new_def example_codecs_def
        QFile_open_def example_disk_def seek_def readLine_def getPosForLine_def latin1_def
        chop_def prev_end_def source_bytes_def Let_def)
qed

text \<open>
  C1, amended. Let a LogData have an open file and a codec, let \<open>i\<close> be below the
  number of lines, and let a newline lie at or after the start byte of the line, which
  is \<open>prev_end(i)\<close>: 0 for line 0, else \<open>getPosForLine(i - 1)\<close>. Then
  \<open>doGetLineString\<close> seeks to the start byte, reads the bytes up to and including the
  first such newline, leaves the file just past it, and returns the decoding of what it
  read with exactly one trailing code unit chopped. Whenever the codec decodes that
  newline to one trailing code unit of its own (every codec that decodes byte by byte
  does), the unit chopped is the terminator's and the string returned is the decoding of
  the bytes before the newline. Whenever, besides, \<open>getPosForLine(i)\<close> is the offset
  just past that newline, these are the bytes from \<open>prev_end(i)\<close> up to, and not
  including, offset \<open>getPosForLine(i) - 1\<close>; and it is that offset whenever the index is
  the one a full index of the file's bytes gives. Nothing is said here of a line with no
  newline before the end of the file.
\<close>

theorem doGetLineString_terminated_line:
  assumes att: "attached_file d = Some f" and dev: "device f = Some bs"
    and cod: "codec d = Some c"
    and i: "i < getNbLines (indexing_data d)"
    and nl: "0x0A \<in> set (drop (prev_end (indexing_data d) i) bs)"
  shows "doGetLineString toUnicode d i =
           Inr (chop 1 (toUnicode c
                          (bytes_before_newline bs (prev_end (indexing_data d) i) @ [0x0A])),
                d\<lparr>attached_file :=
                    Some (f\<lparr>pos := prev_end (indexing_data d) i +
                                   length (bytes_before_newline bs (prev_end (indexing_data d) i)) + 1,
                            accesses := Suc (Suc (accesses f))\<rparr>)\<rparr>) \<and>
         (toUnicode c (bytes_before_newline bs (prev_end (indexing_data d) i) @ [0x0A]) =
            toUnicode c (bytes_before_newline bs (prev_end (indexing_data d) i)) @ [t] \<longrightarrow>
          returned (doGetLineString toUnicode d i) =
            Inr (toUnicode c (bytes_before_newline bs (prev_end (indexing_data d) i)))) \<and>
         (toUnicode c (bytes_before_newline bs (prev_end (indexing_data d) i) @ [0x0A]) =
            toUnicode c (bytes_before_newline bs (prev_end (indexing_data d) i)) @ [t] \<and>
          getPosForLine (indexing_data d) i =
            prev_end (indexing_data d) i +
            length (bytes_before_newline bs (prev_end (indexing_data d) i)) + 1 \<longrightarrow>
          returned (doGetLineString toUnicode d i) =
            Inr (toUnicode c (source_bytes bs (prev_end (indexing_data d) i)
                                (getPosForLine (indexing_data d) i - 1)))) \<and>
         (linePosition (indexing_data d) = scan_line_ends 0 False bs \<longrightarrow>
          getPosForLine (indexing_data d) i =
            prev_end (indexing_data d) i +
            length (bytes_before_newline bs (prev_end (indexing_data d) i)) + 1) \<and>
         prev_end (indexing_data d) i =
           (if i = 0 then 0 else getPosForLine (indexing_data d) (i - 1))"
proof -
  define st where "st = prev_end (indexing_data d) i"
  define line where "line = bytes_before_newline bs st"
  have run: "doGetLineString toUnicode d i =
      Inr (chop 1 (toUnicode c (line @ [0x0A])),
           d\<lparr>attached_file :=
               Some (f\<lparr>pos := st + length line + 1, accesses := Suc (Suc (accesses f))\<rparr>)\<rparr>)"
    using i att cod
    by (simp add: doGetLineString_def first_byte_prev_end
        readLine_newline [OF dev nl] st_def line_def)
  have stripped: "returned (doGetLineString toUnicode d i) = Inr (toUnicode c line)"
    if "toUnicode c (line @ [0x0A]) = toUnicode c line @ [t]"
    unfolding run returned_def using that by (simp add: chop_snoc del: One_nat_def)
  have range: "toUnicode c line =
      toUnicode c (source_bytes bs st (getPosForLine (indexing_data d) i - 1))"
    if "getPosForLine (indexing_data d) i = st + length line + 1"
    using that bytes_before_newline_range [of bs st] by (simp add: line_def)
  have full: "getPosForLine (indexing_data d) i = st + length line + 1"
    if idx: "linePosition (indexing_data d) = scan_line_ends 0 False bs"
  proof -
    from scan_prev_end [OF idx i]
    have lt: "st < getPosForLine (indexing_data d) i"
      and le: "getPosForLine (indexing_data d) i \<le> length bs"
      and la: "line_at (drop st bs) = source_bytes bs st (getPosForLine (indexing_data d) i)"
      unfolding st_def by blast+
    have "length (line_at (drop st bs)) = length line + 1"
      using line_at_newline [OF nl] by (simp add: line_def st_def bytes_before_newline_def)
    moreover have "length (source_bytes bs st (getPosForLine (indexing_data d) i)) =
        getPosForLine (indexing_data d) i - st"
      using lt le by (simp add: source_bytes_def)
    ultimately show ?thesis
      using la lt by simp
  qed
  show ?thesis
    unfolding st_def [symmetric] line_def [symmetric]
  proof (intro conjI impI)
    show "doGetLineString toUnicode d i =
        Inr (chop 1 (toUnicode c (line @ [0x0A])),
             d\<lparr>attached_file :=
                 Some (f\<lparr>pos := st + length line + 1, accesses := Suc (Suc (accesses f))\<rparr>)\<rparr>)"
      by (rule run)
  next
    assume "toUnicode c (line @ [0x0A]) = toUnicode c line @ [t]"
    then show "returned (doGetLineString toUnicode d i) = Inr (toUnicode c line)"
      by (rule stripped)
  next
    assume both: "toUnicode c (line @ [0x0A]) = toUnicode c line @ [t] \<and>
        getPosForLine (indexing_data d) i = st + length line + 1"
    then have "returned (doGetLineString toUnicode d i) = Inr (toUnicode c line)"
      by (intro stripped) simp
    moreover have "toUnicode c line =
        toUnicode c (source_bytes bs st (getPosForLine (indexing_data d) i - 1))"
      using both by (intro range) simp
    ultimately show "returned (doGetLineString toUnicode d i) =
        Inr (toUnicode c (source_bytes bs st (getPosForLine (indexing_data d) i - 1)))"
      by simp
  next
    assume "linePosition (indexing_data d) = scan_line_ends 0 False bs"
    then show "getPosForLine (indexing_data d) i = st + length line + 1"
      by (rule full)
  next
    show "st = (if i = 0 then 0 else getPosForLine (indexing_data d) (i - 1))"
      by (simp add: st_def first_byte_prev_end)
  qed
qed

text \<open>
  The third line of scenario 1 of the spec, \<open>get_line(2)\<close>, is \<open>gamma\<close>, the bytes from
  11 up to 16; and line 1 of the grown file above is \<open>two\<close>.
\<close>

theorem doGetLineString_terminated_line_witness:
  "2 < getNbLines (indexing_data (example_log ''alpha\<newline>beta\<newline>gamma\<newline>'' ''alpha\<newline>beta\<newline>gamma\<newline>'')) \<and>
   returned (doGetLineString latin1
      (example_log ''alpha\<newline>beta\<newline>gamma\<newline>'' ''alpha\<newline>beta\<newline>gamma\<newline>'') 2) =
     Inr (fromLatin1 ''gamma'') \<and>
   latin1 (Codec 4) (source_bytes (file_bytes ''alpha\<newline>beta\<newline>gamma\<newline>'') 11 (17 - 1)) =
     fromLatin1 ''gamma'' \<and>
   returned (doGetLineString latin1
      (example_log_extended ''one\<newline>two'' ''one\<newline>two\<newline>three\<newline>'') 1) =
     Inr (fromLatin1 ''two'')"
proof (intro conjI)
  let ?content = "''alpha\<newline>beta\<newline>gamma\<newline>''"
  let ?bs = "file_bytes ?content"
  let ?d = "example_log ?content ?content"
  let ?f = "QFile_open (example_disk ?content) ''app.log''"
  have les: "scan_line_ends 0 False ?bs = [6, 11, 17]"
    by (simp add: file_bytes_def)
  have att: "attached_file ?d = Some ?f"
    by (simp add: example_log_def)
  have dev: "device ?f = Some ?bs"
    by (simp add: QFile_open_def example_disk_def)
  have cod: "codec ?d = Some (Codec 4)"
    by (simp add: example_log_def LogData_new_def example_codecs_def)
  have idx: "linePosition (indexing_data ?d) = scan_line_ends 0 False ?bs"
    by (simp add: example_log_def index_all_def)
  show i: "2 < getNbLines (indexing_data ?d)"
    by (simp add: getNbLines_def idx les)
  have pe: "prev_end (indexing_data ?d) 2 = 11" and ge: "getPosForLine (indexing_data ?d) 2 = 17"
    by (simp_all add: prev_end_def getPosForLine_def idx les)
  have nl: "0x0A \<in> set (drop (prev_end (indexing_data ?d) 2) ?bs)"
    unfolding pe by (simp add: file_bytes_def)
  have unit: "latin1 (Codec 4) (bytes_before_newline ?bs (prev_end (indexing_data ?d) 2) @ [0x0A]) =
      latin1 (Codec 4) (bytes_before_newline ?bs (prev_end (indexing_data ?d) 2)) @ [0x0A]"
    by (simp add: latin1_def)
  have "returned (doGetLineString latin1 ?d 2) =
      Inr (latin1 (Codec 4) (source_bytes ?bs (prev_end (indexing_data ?d) 2)
                               (getPosForLine (indexing_data ?d) 2 - 1)))"
    using doGetLineString_terminated_line [OF att dev cod i nl, of latin1 "0x0A"] unit idx
    by blast
  moreover show sb: "latin1 (Codec 4) (source_bytes ?bs 11 (17 - 1)) = fromLatin1 ''gamma''"
    by (simp add: source_bytes_def file_bytes_def latin1_def fromLatin1_def)
  ultimately show "returned (doGetLineString latin1 ?d 2) = Inr (fromLatin1 ''gamma'')"
    unfolding pe ge by simp
next
  let ?grown = "''one\<newline>two\<newline>three\<newline>''"
  let ?bs = "file_bytes ?grown"
  let ?d = "example_log_extended ''one\<newline>two'' ?grown"
  let ?f = "QFile_open (example_disk ?grown) ''app.log''"
  have att: "attached_file ?d = Some ?f"
    by (simp add: example_log_extended_def example_log_def)
  have dev: "device ?f = Some ?bs"
    by (simp add: QFile_open_def example_disk_def)
  have cod: "codec ?d = Some (Codec 4)"
    by (simp add: example_log_extended_def example_log_def LogData_new_def example_codecs_def)
  have les: "linePosition (indexing_data ?d) = [4, 7, 8, 14]"
    by (simp add: example_log_extended_def index_additional_def index_all_def file_bytes_def)
  have i: "1 < getNbLines (indexing_data ?d)"
    by (simp add: getNbLines_def les)
  have pe: "prev_end (indexing_data ?d) 1 = 4"
    by (simp add: prev_end_def les)
  have nl: "0x0A \<in> set (drop (prev_end (indexing_data ?d) 1) ?bs)"
    unfolding pe by (simp add: file_bytes_def)
  have unit: "latin1 (Codec 4) (bytes_before_newline ?bs (prev_end (indexing_data ?d) 1) @ [0x0A]) =
      latin1 (Codec 4) (bytes_before_newline ?bs (prev_end (indexing_data ?d) 1)) @ [0x0A]"
    by (simp add: latin1_def)
  have "returned (doGetLineString latin1 ?d 1) =
      Inr (latin1 (Codec 4) (bytes_before_newline ?bs (prev_end (indexing_data ?d) 1)))"
    using doGetLineString_terminated_line [OF att dev cod i nl, of latin1 "0x0A"] unit
    by blast
  moreover have "latin1 (Codec 4) (bytes_before_newline ?bs 4) = fromLatin1 ''two''"
    by (simp add: bytes_before_newline_def file_bytes_def latin1_def fromLatin1_def)
  ultimately show "returned (doGetLineString latin1 ?d 1) = Inr (fromLatin1 ''two'')"
    unfolding pe by simp
qed

text \<open>
  C2. The claim: for the file \<open>one\ntwo\<close>, which has no trailing newline, there are
  two lines and \<open>get_line(1)\<close> is \<open>two\<close>. The index of the spec has two lines, ending
  at 4 and at 7, but \<open>doGetLineString\<close> reads \<open>two\<close> and chops its last code unit
  although it is no terminator: it returns \<open>tw\<close>.
\<close>

theorem doGetLineString_unterminated_last_line:
  "doGetNbLine (example_log ''one\<newline>two'' ''one\<newline>two'') = 2 \<and>
   returned (doGetLineString latin1 (example_log ''one\<newline>two'' ''one\<newline>two'') 1) =
     Inr (fromLatin1 ''tw'')"
  by (simp add: doGetNbLine_def getNbLines_def example_log_def index_all_def file_bytes_def
      returned_def doGetLineString_def LogData_new_def example_codecs_def QFile_open_def
      example_disk_def seek_def readLine_def getPosForLine_def latin1_def chop_def
      fromLatin1_def Let_def)

text \<open>
  The result does not depend on the index: wherever a line of this file is said to
  start, \<open>doGetLineString\<close> chops the last unit of what it reads, and never returns
  \<open>two\<close>.
\<close>

lemma chop_unterminated:
  "chop 1 (latin1 c (line_at (drop p (file_bytes ''one\<newline>two'')))) \<noteq> fromLatin1 ''two''"
proof -
  have "p = 0 \<or> p = 1 \<or> p = 2 \<or> p = 3 \<or> p = 4 \<or> p = 5 \<or> p = 6 \<or> 7 \<le> p"
    by arith
  then show ?thesis
    by (elim disjE) (simp_all add: file_bytes_def latin1_def fromLatin1_def chop_def)
qed

lemma doGetLineString_never_two:
  assumes att: "attached_file d = Some f"
    and dev: "device f = Some (file_bytes ''one\<newline>two'')"
  shows "returned (doGetLineString latin1 d line) \<noteq> Inr (fromLatin1 ''two'')"
proof (cases "line \<ge> getNbLines (indexing_data d)")
  case True
  then show ?thesis
    by (simp add: doGetLineString_def returned_def fromLatin1_def)
next
  case False
  define p where "p = (if line = 0 then 0 else getPosForLine (indexing_data d) (line - 1))"
  show ?thesis
  proof (cases "codec d")
    case None
    with False att show ?thesis
      by (simp add: doGetLineString_def returned_def Let_def split: prod.splits)
  next
    case (Some c)
    with False att dev
    have "returned (doGetLineString latin1 d line) =
        Inr (chop 1 (latin1 c (line_at (drop p (file_bytes ''one\<newline>two'')))))"
      unfolding p_def
      by (simp add: doGetLineString_def returned_def seek_def readLine_def Let_def)
    then show ?thesis
      using chop_unterminated [of c p] by simp
  qed
qed

section \<open>Reading a range of lines\<close>

text \<open>
  On a file indexed as above, the range reads return, for each line of a valid range, the
  decoding of the bytes from \<open>prev_end(k)\<close> up to, and not including, offset
  \<open>getPosForLine(k) - 1\<close>.
\<close>

lemma lines_loop_indexed:
  assumes idx: "linePosition idx = scan_line_ends 0 False bs"
    and last: "last_line < getNbLines idx"
    and blob: "blob = source_bytes bs (prev_end idx first_line) (getPosForLine idx last_line)"
  shows "first_line \<le> line \<Longrightarrow> line \<le> Suc last_line \<Longrightarrow> m = Suc last_line - line \<Longrightarrow>
     lines_loop decode idx blob (prev_end idx first_line)
        (prev_end idx line - prev_end idx first_line) [line ..< Suc last_line] =
     Inr (map (\<lambda>k. decode (source_bytes bs (prev_end idx k) (getPosForLine idx k - 1)))
            [line ..< Suc last_line])"
proof (induction m arbitrary: line)
  case 0
  then show ?case by simp
next
  case (Suc m)
  then have line: "line \<le> last_line" by simp
  then have inb: "line < getNbLines idx" using last by simp
  define P where "P = prev_end idx"
  define E where "E = getPosForLine idx"
  have upt: "[line ..< Suc last_line] = line # [Suc line ..< Suc last_line]"
    using line by (simp add: upt_conv_Cons)
  have a: "P first_line \<le> P line"
    unfolding P_def using Suc.prems(1) inb by (rule prev_end_mono [OF idx])
  have b: "P line < E line" and c: "E line \<le> length bs"
    unfolding P_def E_def using scan_prev_end [OF idx inb] by simp_all
  have d: "E line \<le> E last_line"
    unfolding E_def using line last by (rule line_ends_mono [OF idx])
  have e: "E last_line \<le> length bs"
    unfolding E_def using scan_prev_end [OF idx last] by simp
  have len: "length blob = E last_line - P first_line"
    unfolding blob source_bytes_def P_def [symmetric] E_def [symmetric] using e by simp
  have slice: "take (E line - P first_line - (P line - P first_line) - 1)
                 (drop (P line - P first_line) blob) =
               source_bytes bs (P line) (E line - 1)"
  proof -
    have "drop (P line - P first_line) blob =
        take (E last_line - P line) (drop (P line) bs)"
      unfolding blob source_bytes_def P_def [symmetric] E_def [symmetric]
      using a by (simp add: drop_take)
    moreover have "E line - P first_line - (P line - P first_line) - 1 = E line - 1 - P line"
      using a b by simp
    moreover have "min (E line - 1 - P line) (E last_line - P line) = E line - 1 - P line"
      using d by simp
    ultimately show ?thesis
      by (simp add: source_bytes_def)
  qed
  have next_begin: "E line - P first_line = P (Suc line) - P first_line"
    by (simp add: P_def E_def prev_end_Suc)
  have ih: "lines_loop decode idx blob (P first_line) (E line - P first_line)
        [Suc line ..< Suc last_line] =
      Inr (map (\<lambda>k. decode (source_bytes bs (P k) (E k - 1))) [Suc line ..< Suc last_line])"
    unfolding next_begin unfolding P_def E_def
    by (rule Suc.IH) (use Suc.prems in simp_all)
  have ok: "\<not> (E line - P first_line < P line - P first_line + 1 \<or>
              length blob < E line - P first_line - 1)"
    unfolding len using a b d by arith
  show ?case
    unfolding upt P_def [symmetric] E_def [symmetric]
    by (simp only: lines_loop.simps Let_def E_def [symmetric] ok if_False ih sum.case slice
        list.map)
qed

lemma doGetLines_indexed:
  assumes att: "attached_file d = Some f" and dev: "device f = Some bs"
    and cod: "codec d = Some c"
    and idx: "linePosition (indexing_data d) = scan_line_ends 0 False bs"
    and n: "0 < number"
    and r: "first_line + number \<le> getNbLines (indexing_data d)"
  shows "returned (doGetLines toUnicode d first_line number) =
      Inr (map (\<lambda>k. toUnicode c (source_bytes bs (prev_end (indexing_data d) k)
                                     (getPosForLine (indexing_data d) k - 1)))
             [first_line ..< first_line + number])"
    and "returned (doGetExpandedLines toUnicode d first_line number) =
      Inr (map (\<lambda>k. untabify (toUnicode c (source_bytes bs (prev_end (indexing_data d) k)
                                               (getPosForLine (indexing_data d) k - 1))))
             [first_line ..< first_line + number])"
proof -
  define last_line where "last_line = first_line + number - 1"
  have last: "last_line < getNbLines (indexing_data d)"
    and suc: "Suc last_line = first_line + number" and fl: "first_line \<le> Suc last_line"
    using n r by (simp_all add: last_line_def)
  have inb: "\<not> getNbLines (indexing_data d) \<le> last_line"
    using last by simp
  have loop: "lines_loop decode (indexing_data d)
        (source_bytes bs (prev_end (indexing_data d) first_line)
           (getPosForLine (indexing_data d) last_line))
        (prev_end (indexing_data d) first_line) 0 [first_line ..< Suc last_line] =
      Inr (map (\<lambda>k. decode (source_bytes bs (prev_end (indexing_data d) k)
                                (getPosForLine (indexing_data d) k - 1)))
             [first_line ..< Suc last_line])" for decode
    using lines_loop_indexed [OF idx last refl, of first_line first_line _ decode] fl
    by simp
  note loop' = loop [unfolded suc]
  show "returned (doGetLines toUnicode d first_line number) =
      Inr (map (\<lambda>k. toUnicode c (source_bytes bs (prev_end (indexing_data d) k)
                                     (getPosForLine (indexing_data d) k - 1)))
             [first_line ..< first_line + number])"
    unfolding doGetLines_def last_line_def [symmetric] first_byte_prev_end Let_def
    using n inb att cod
    by (simp add: read_indexed [OF dev] loop' returned_def suc)
  show "returned (doGetExpandedLines toUnicode d first_line number) =
      Inr (map (\<lambda>k. untabify (toUnicode c (source_bytes bs (prev_end (indexing_data d) k)
                                               (getPosForLine (indexing_data d) k - 1))))
             [first_line ..< first_line + number])"
    unfolding doGetExpandedLines_def last_line_def [symmetric] first_byte_prev_end Let_def
    using n inb att cod
    by (simp add: read_indexed [OF dev] loop' returned_def suc)
qed

lemma untabify_from_snoc:
  "x \<noteq> 0x09 \<Longrightarrow> untabify_from col (s @ [x]) = untabify_from col s @ [x]"
  by (induction s arbitrary: col) simp_all

text \<open>
  For a codec that decodes byte by byte, \<open>doGetLines\<close> agrees with \<open>doGetLineString\<close>
  on every line of every valid range, and \<open>doGetExpandedLines\<close> agrees with
  \<open>doGetExpandedLineString\<close> on every line whose last byte does not decode to a tab, so
  on every line that ends in a newline.
\<close>

theorem doGetLines_agrees_with_doGetLineString:
  assumes att: "attached_file d = Some f" and dev: "device f = Some bs"
    and cod: "codec d = Some c"
    and idx: "linePosition (indexing_data d) = scan_line_ends 0 False bs"
    and bytewise: "\<forall>xs. toUnicode c xs = map u xs"
    and r: "first_line + number \<le> getNbLines (indexing_data d)"
    and k: "k < number"
  shows "\<exists>lines. returned (doGetLines toUnicode d first_line number) = Inr lines \<and>
           length lines = number \<and>
           returned (doGetLineString toUnicode d (first_line + k)) = Inr (lines ! k)"
proof -
  have i: "first_line + k < getNbLines (indexing_data d)" and n: "0 < number"
    using r k by simp_all
  from scan_prev_end [OF idx i]
  have lt: "prev_end (indexing_data d) (first_line + k) <
      getPosForLine (indexing_data d) (first_line + k)"
    and le: "getPosForLine (indexing_data d) (first_line + k) \<le> length bs"
    by blast+
  have one: "returned (doGetLineString toUnicode d (first_line + k)) =
      Inr (toUnicode c (source_bytes bs (prev_end (indexing_data d) (first_line + k))
                          (getPosForLine (indexing_data d) (first_line + k) - 1)))"
    unfolding doGetLineString_indexed [OF att dev cod idx i]
      chop_decoded_line [where toUnicode = toUnicode and c = c and u = u, OF bytewise lt le]
    by (simp add: returned_def)
  show ?thesis
    unfolding doGetLines_indexed(1) [OF att dev cod idx n r] one
    using k by simp
qed

theorem doGetExpandedLines_agrees_unless_tab:
  assumes att: "attached_file d = Some f" and dev: "device f = Some bs"
    and cod: "codec d = Some c"
    and idx: "linePosition (indexing_data d) = scan_line_ends 0 False bs"
    and bytewise: "\<forall>xs. toUnicode c xs = map u xs"
    and r: "first_line + number \<le> getNbLines (indexing_data d)"
    and k: "k < number"
    and no_tab: "u (bs ! (getPosForLine (indexing_data d) (first_line + k) - 1)) \<noteq> 0x09"
  shows "\<exists>lines. returned (doGetExpandedLines toUnicode d first_line number) = Inr lines \<and>
           length lines = number \<and>
           returned (doGetExpandedLineString toUnicode d (first_line + k)) = Inr (lines ! k)"
proof -
  define i where "i = first_line + k"
  have i: "i < getNbLines (indexing_data d)" and n: "0 < number"
    using r k by (simp_all add: i_def)
  from scan_prev_end [OF idx i]
  have lt: "prev_end (indexing_data d) i < getPosForLine (indexing_data d) i"
    and le: "getPosForLine (indexing_data d) i \<le> length bs"
    by blast+
  have "returned (doGetExpandedLineString toUnicode d i) =
      Inr (chop 1 (untabify (toUnicode c (source_bytes bs (prev_end (indexing_data d) i)
                                            (getPosForLine (indexing_data d) i)))))"
    using i att cod
    by (simp add: doGetExpandedLineString_def first_byte_prev_end
        readLine_indexed [OF dev idx i] returned_def)
  also have "chop 1 (untabify (toUnicode c (source_bytes bs (prev_end (indexing_data d) i)
                                              (getPosForLine (indexing_data d) i)))) =
      untabify (toUnicode c (source_bytes bs (prev_end (indexing_data d) i)
                               (getPosForLine (indexing_data d) i - 1)))"
  proof -
    have "untabify (toUnicode c (source_bytes bs (prev_end (indexing_data d) i)
                                   (getPosForLine (indexing_data d) i))) =
        untabify (toUnicode c (source_bytes bs (prev_end (indexing_data d) i)
                                 (getPosForLine (indexing_data d) i - 1))) @
        [u (bs ! (getPosForLine (indexing_data d) i - 1))]"
      unfolding source_bytes_butlast [OF lt le] untabify_def
      using bytewise no_tab [folded i_def] by (simp add: untabify_from_snoc)
    then show ?thesis
      by (simp only: chop_snoc)
  qed
  finally show ?thesis
    unfolding doGetLines_indexed(2) [OF att dev cod idx n r] i_def
    using k by simp
qed

lemma replicate_numeral: "replicate (numeral n) x = x # replicate (pred_numeral n) x"
  by (simp add: numeral_eq_Suc)

text \<open>
  C3. The claim: on a valid range \<open>get_lines(f, n)[k]\<close> is \<open>get_line(f + k)\<close>, and
  likewise for the expanded variants. For a file that is one unterminated line ending in
  a tab (\<open>a\t\<close>), \<open>doGetExpandedLines\<close> drops the last byte before expanding tabs and
  returns \<open>a\<close>, while \<open>doGetExpandedLineString\<close> expands the tab to seven spaces and
  then chops one of them.
\<close>

theorem doGetExpandedLines_unterminated_tab:
  "doGetNbLine (example_log (''a'' @ [CHR 0x09]) (''a'' @ [CHR 0x09])) = 1 \<and>
   returned (doGetExpandedLines latin1
       (example_log (''a'' @ [CHR 0x09]) (''a'' @ [CHR 0x09])) 0 1) =
     Inr [fromLatin1 ''a''] \<and>
   returned (doGetExpandedLineString latin1
       (example_log (''a'' @ [CHR 0x09]) (''a'' @ [CHR 0x09])) 0) =
     Inr (fromLatin1 ''a      '')"
  by (simp add: doGetNbLine_def getNbLines_def example_log_def index_all_def file_bytes_def
      returned_def doGetExpandedLines_def doGetExpandedLineString_def LogData_new_def
      example_codecs_def QFile_open_def untabify_def
      example_disk_def seek_def readLine_def read_def getPosForLine_def latin1_def chop_def
      fromLatin1_def Let_def replicate_numeral)

section \<open>The operation queue\<close>

lemma enqueue_idle:
  "currentOperation d = None \<Longrightarrow>
   enqueueOperation operation d =
     d\<lparr>currentOperation := Some operation, workerThread := doStart operation (workerThread d)\<rparr>"
  by (simp add: enqueueOperation_def startOperation_def)

lemma enqueue_busy:
  "currentOperation d \<noteq> None \<Longrightarrow>
   enqueueOperation operation d = d\<lparr>nextOperation := Some operation\<rparr>"
  by (auto simp: enqueueOperation_def)

lemma example_sizes:
  "QFileInfo_size (example_disk content) ''app.log'' = length content"
  "QFile_size (example_disk content) (QFile_open (example_disk content) ''app.log'') = length content"
  "device (QFile_open (example_disk content) ''app.log'') = Some (file_bytes content)"
  "fileName (QFile_open (example_disk content) ''app.log'') = ''app.log''"
  "getSize (indexing_data (example_log indexed content)) = length indexed"
  "attached_file (example_log indexed content) =
     Some (QFile_open (example_disk content) ''app.log'')"
  by (simp_all add: QFileInfo_size_def QFile_size_def QFile_open_def example_disk_def
      file_bytes_def getSize_def example_log_def index_all_def)

lemma example_file_after_check:
  "file_after_check (example_disk content) (QFile_open (example_disk content) ''app.log'') =
     QFile_open (example_disk content) ''app.log''"
  by (simp add: file_after_check_def example_sizes)

lemma example_idle:
  "currentOperation (example_log indexed content) = None"
  "nextOperation (example_log indexed content) = None"
  "workerThread (example_log indexed content) = []"
  "fileChangedOnDisk_state (example_log indexed content) = Unchanged"
  by (simp_all add: example_log_def LogData_new_def)

lemma example_nb_lines:
  "doGetNbLine (example_log ''alpha\<newline>beta\<newline>gamma\<newline>'' content) = 3"
  by (simp add: doGetNbLine_def getNbLines_def example_log_def index_all_def file_bytes_def)

lemma example_index_codec:
  "currentIndexCodec (indexing_data (example_log indexed content)) = Codec 4"
  "getEncodingGuess (indexing_data (example_log indexed content)) = Codec 4"
  "currentIndexCodec (index_all guess (Some forced) longest bs) = forced"
  "getEncodingGuess (index_all guess forcedEncoding longest bs) = guess"
  by (simp_all add: currentIndexCodec_def getForcedEncoding_def getEncodingGuess_def
      example_log_def index_all_def)

text \<open>
  C5. The queue has one slot for a pending operation. With no operation running, the
  enqueued operation becomes the current one and its calls go to the worker at once.
  With one running, the enqueued operation overwrites the pending slot, so that of two
  operations enqueued in a row only the later one is kept. When the running operation
  finishes (and \<open>indexingFinished\<close> returns: an operation was running, and a file is
  attached if the status is Successful), the pending operation becomes the current one,
  the slot is empty, and the promoted operation, if there is one, is started.
\<close>

theorem operation_queue_depth_one:
  "(currentOperation d = None \<longrightarrow>
      enqueueOperation operation d =
        d\<lparr>currentOperation := Some operation,
          workerThread := doStart operation (workerThread d)\<rparr>) \<and>
   (currentOperation d \<noteq> None \<longrightarrow>
      enqueueOperation operation d = d\<lparr>nextOperation := Some operation\<rparr> \<and>
      enqueueOperation operation (enqueueOperation earlier d) = enqueueOperation operation d) \<and>
   (currentOperation d \<noteq> None \<and> (status = Successful \<longrightarrow> attached_file d \<noteq> None) \<longrightarrow>
      (\<exists>d'. indexingFinished disk status d = Inr d' \<and>
            currentOperation d' = nextOperation d \<and>
            nextOperation d' = None \<and>
            workerThread d' =
              (case nextOperation d of
                 None \<Rightarrow> workerThread d
               | Some promoted \<Rightarrow> doStart promoted (workerThread d))))"
proof (intro conjI impI)
  assume "currentOperation d = None"
  then show "enqueueOperation operation d =
      d\<lparr>currentOperation := Some operation, workerThread := doStart operation (workerThread d)\<rparr>"
    by (rule enqueue_idle)
next
  assume "currentOperation d \<noteq> None"
  then show "enqueueOperation operation d = d\<lparr>nextOperation := Some operation\<rparr>"
    by (rule enqueue_busy)
next
  assume busy: "currentOperation d \<noteq> None"
  then have busy': "currentOperation (d\<lparr>nextOperation := Some earlier\<rparr>) \<noteq> None"
    by simp
  show "enqueueOperation operation (enqueueOperation earlier d) = enqueueOperation operation d"
    unfolding enqueue_busy [OF busy] enqueue_busy [OF busy'] by simp
next
  assume a: "currentOperation d \<noteq> None \<and> (status = Successful \<longrightarrow> attached_file d \<noteq> None)"
  show "\<exists>d'. indexingFinished disk status d = Inr d' \<and>
            currentOperation d' = nextOperation d \<and>
            nextOperation d' = None \<and>
            workerThread d' =
              (case nextOperation d of
                 None \<Rightarrow> workerThread d
               | Some promoted \<Rightarrow> doStart promoted (workerThread d))"
  proof (cases "status = Successful")
    case True
    with a obtain f where "attached_file d = Some f" by auto
    with a True show ?thesis
      by (cases "nextOperation d") (auto simp: indexingFinished_def startOperation_def Let_def)
  next
    case False
    with a show ?thesis
      by (cases "nextOperation d") (auto simp: indexingFinished_def startOperation_def Let_def)
  qed
qed

text \<open>
  An idle LogData starts a full index at once; a PartialIndex enqueued after an
  AttachOperation while a full index runs is the one kept; it is started when the full
  index finishes.
\<close>

theorem operation_queue_depth_one_witness:
  "enqueueOperation (FullIndexOperation None) (example_log ''x\<newline>'' ''x\<newline>'') =
     (example_log ''x\<newline>'' ''x\<newline>'')
       \<lparr>currentOperation := Some (FullIndexOperation None), workerThread := [IndexAllCall None]\<rparr> \<and>
   enqueueOperation PartialIndexOperation
       (enqueueOperation (AttachOperation ''other.log'')
          ((example_log ''x\<newline>'' ''x\<newline>'')\<lparr>currentOperation := Some (FullIndexOperation None)\<rparr>)) =
     (example_log ''x\<newline>'' ''x\<newline>'')
       \<lparr>currentOperation := Some (FullIndexOperation None),
        nextOperation := Some PartialIndexOperation\<rparr> \<and>
   (\<exists>d'. indexingFinished (example_disk ''x\<newline>'') Successful
            ((example_log ''x\<newline>'' ''x\<newline>'')
               \<lparr>currentOperation := Some (FullIndexOperation None),
                nextOperation := Some PartialIndexOperation\<rparr>) = Inr d' \<and>
         currentOperation d' = Some PartialIndexOperation \<and>
         nextOperation d' = None \<and>
         workerThread d' = [IndexAdditionalLinesCall])"
proof (intro conjI)
  let ?d = "example_log ''x\<newline>'' ''x\<newline>''"
  let ?busy = "?d\<lparr>currentOperation := Some (FullIndexOperation None)\<rparr>"
  let ?pending = "?d\<lparr>currentOperation := Some (FullIndexOperation None),
                      nextOperation := Some PartialIndexOperation\<rparr>"
  show "enqueueOperation (FullIndexOperation None) ?d =
      ?d\<lparr>currentOperation := Some (FullIndexOperation None), workerThread := [IndexAllCall None]\<rparr>"
    using operation_queue_depth_one [where d = ?d and operation = "FullIndexOperation None"]
    by (simp add: example_idle)
  show "enqueueOperation PartialIndexOperation (enqueueOperation (AttachOperation ''other.log'') ?busy) =
      ?pending"
    using operation_queue_depth_one [where d = ?busy and operation = PartialIndexOperation
        and earlier = "AttachOperation ''other.log''"]
    by simp
  show "\<exists>d'. indexingFinished (example_disk ''x\<newline>'') Successful ?pending = Inr d' \<and>
         currentOperation d' = Some PartialIndexOperation \<and>
         nextOperation d' = None \<and>
         workerThread d' = [IndexAdditionalLinesCall]"
    using operation_queue_depth_one [where d = ?pending and status = Successful
        and disk = "example_disk ''x\<newline>''"]
    by (auto simp: example_idle example_sizes)
qed

section \<open>Attaching a file\<close>

text \<open>
  The claim C6 says that \<open>attachFile\<close> on a LogData with no attached file opens the
  source. When no file has the name, the \<open>open\<close> fails and its result is not looked at:
  \<open>attachFile\<close> throws nothing, attaches a file that is not open and enqueues the
  AttachOperation all the same.
\<close>

theorem attachFile_source_not_opened:
  "fst (attachFile Map.empty ''missing.log'' (LogData_new example_codecs (Codec 4))) = None \<and>
   map_option device
     (attached_file (snd (attachFile Map.empty ''missing.log''
                            (LogData_new example_codecs (Codec 4))))) = Some None \<and>
   currentOperation (snd (attachFile Map.empty ''missing.log''
                            (LogData_new example_codecs (Codec 4)))) =
     Some (AttachOperation ''missing.log'')"
  by (simp add: attachFile_def LogData_new_def enqueueOperation_def startOperation_def
      QFile_open_def)

text \<open>
  C6, amended. On a LogData with no attached file, \<open>attachFile\<close> throws nothing,
  attaches a QFile of the given name at position 0, which is open on the bytes of the
  file of that name if there is one and not open if there is none, and enqueues an
  AttachOperation; an \<open>attachFile\<close> on the result throws CantReattachErr and leaves
  the object as it is. On any LogData with an attached file, \<open>attachFile\<close> throws
  CantReattachErr and leaves the object (its file and its queue with it) as it is.
\<close>

theorem attachFile_once:
  "(attached_file d = None \<longrightarrow>
      (\<exists>f. attachFile disk name d =
              (None, enqueueOperation (AttachOperation name) (d\<lparr>attached_file := Some f\<rparr>)) \<and>
            fileName f = name \<and>
            device f = (case disk name of None \<Rightarrow> None | Some df \<Rightarrow> Some (bytes df)) \<and>
            pos f = 0) \<and>
      operation_queue (snd (attachFile disk name d)) =
        operation_queue (enqueueOperation (AttachOperation name) d) \<and>
      attachFile disk' name' (snd (attachFile disk name d)) =
        (Some CantReattachErr, snd (attachFile disk name d))) \<and>
   (attached_file d \<noteq> None \<longrightarrow> attachFile disk name d = (Some CantReattachErr, d))"
proof (intro conjI impI)
  assume un: "attached_file d = None"
  have run: "attachFile disk name d =
      (None, enqueueOperation (AttachOperation name)
               (d\<lparr>attached_file := Some (QFile_open disk name)\<rparr>))"
    using un by (simp add: attachFile_def)
  have opened: "fileName (QFile_open disk name) = name"
    "device (QFile_open disk name) =
       (case disk name of None \<Rightarrow> None | Some df \<Rightarrow> Some (bytes df))"
    "pos (QFile_open disk name) = 0"
    by (simp_all add: QFile_open_def split: option.splits)
  show "\<exists>f. attachFile disk name d =
              (None, enqueueOperation (AttachOperation name) (d\<lparr>attached_file := Some f\<rparr>)) \<and>
            fileName f = name \<and>
            device f = (case disk name of None \<Rightarrow> None | Some df \<Rightarrow> Some (bytes df)) \<and>
            pos f = 0"
    using run opened by blast
  show "operation_queue (snd (attachFile disk name d)) =
      operation_queue (enqueueOperation (AttachOperation name) d)"
    unfolding run
    by (simp add: operation_queue_def enqueueOperation_def startOperation_def)
  have "attached_file (snd (attachFile disk name d)) \<noteq> None"
    unfolding run
    by (simp add: enqueueOperation_def startOperation_def)
  then show "attachFile disk' name' (snd (attachFile disk name d)) =
      (Some CantReattachErr, snd (attachFile disk name d))"
    by (simp add: attachFile_def)
next
  assume "attached_file d \<noteq> None"
  then show "attachFile disk name d = (Some CantReattachErr, d)"
    by (simp add: attachFile_def)
qed

text \<open>
  Attaching \<open>app.log\<close>, which is on the disk, to a new LogData: the file is open on its
  bytes. Attaching \<open>gone.log\<close>, which is not: the file is not open. Attaching
  \<open>other.log\<close> after \<open>app.log\<close>, and attaching to an object that has its file.
\<close>

theorem attachFile_once_witness:
  "(\<exists>f. attachFile (example_disk ''x\<newline>'') ''app.log'' (LogData_new example_codecs (Codec 4)) =
          (None, (LogData_new example_codecs (Codec 4))
                   \<lparr>attached_file := Some f,
                    currentOperation := Some (AttachOperation ''app.log''),
                    workerThread := [AttachFileCall ''app.log'', IndexAllCall None]\<rparr>) \<and>
        fileName f = ''app.log'' \<and> device f = Some (file_bytes ''x\<newline>'') \<and> pos f = 0) \<and>
   (\<exists>f. attached_file (snd (attachFile (example_disk ''x\<newline>'') ''gone.log''
                                (LogData_new example_codecs (Codec 4)))) = Some f \<and>
        fileName f = ''gone.log'' \<and> device f = None) \<and>
   attachFile (example_disk ''x\<newline>'') ''other.log''
       (snd (attachFile (example_disk ''x\<newline>'') ''app.log''
               (LogData_new example_codecs (Codec 4)))) =
     (Some CantReattachErr,
      snd (attachFile (example_disk ''x\<newline>'') ''app.log''
             (LogData_new example_codecs (Codec 4)))) \<and>
   attachFile (example_disk ''x\<newline>'') ''app.log'' (example_log ''x\<newline>'' ''x\<newline>'') =
     (Some CantReattachErr, example_log ''x\<newline>'' ''x\<newline>'')"
proof (intro conjI)
  let ?new = "LogData_new example_codecs (Codec 4)"
  let ?disk = "example_disk ''x\<newline>''"
  have unattached: "attached_file ?new = None" and idle: "currentOperation ?new = None"
    and calls: "workerThread ?new = []"
    by (simp_all add: LogData_new_def)
  have there: "?disk ''app.log'' = Some \<lparr>bytes = file_bytes ''x\<newline>'', lastModified = 7\<rparr>"
    and gone: "?disk ''gone.log'' = None"
    by (simp_all add: example_disk_def)
  have started: "enqueueOperation (AttachOperation name) (?new\<lparr>attached_file := Some f\<rparr>) =
      ?new\<lparr>attached_file := Some f, currentOperation := Some (AttachOperation name),
            workerThread := [AttachFileCall name, IndexAllCall None]\<rparr>" for name f
    by (simp add: enqueueOperation_def startOperation_def idle calls)
  show "\<exists>f. attachFile ?disk ''app.log'' ?new =
          (None, ?new\<lparr>attached_file := Some f,
                      currentOperation := Some (AttachOperation ''app.log''),
                      workerThread := [AttachFileCall ''app.log'', IndexAllCall None]\<rparr>) \<and>
        fileName f = ''app.log'' \<and> device f = Some (file_bytes ''x\<newline>'') \<and> pos f = 0"
    using attachFile_once [where d = ?new and disk = ?disk and name = "''app.log''"] unattached
    by (auto simp: there started)
  show "\<exists>f. attached_file (snd (attachFile ?disk ''gone.log'' ?new)) = Some f \<and>
        fileName f = ''gone.log'' \<and> device f = None"
  proof -
    from attachFile_once [where d = ?new and disk = ?disk and name = "''gone.log''"] unattached
    obtain f where "attachFile ?disk ''gone.log'' ?new =
          (None, enqueueOperation (AttachOperation ''gone.log'') (?new\<lparr>attached_file := Some f\<rparr>))"
      and "fileName f = ''gone.log''"
      and "device f = (case ?disk ''gone.log'' of None \<Rightarrow> None | Some df \<Rightarrow> Some (bytes df))"
      by blast
    then show ?thesis
      by (simp add: gone started)
  qed
  show "attachFile ?disk ''other.log'' (snd (attachFile ?disk ''app.log'' ?new)) =
     (Some CantReattachErr, snd (attachFile ?disk ''app.log'' ?new))"
    using attachFile_once [where d = ?new and disk = ?disk and name = "''app.log''"
        and disk' = ?disk and name' = "''other.log''"] unattached
    by blast
  show "attachFile ?disk ''app.log'' (example_log ''x\<newline>'' ''x\<newline>'') =
     (Some CantReattachErr, example_log ''x\<newline>'' ''x\<newline>'')"
    using attachFile_once [where d = "example_log ''x\<newline>'' ''x\<newline>''" and disk = ?disk
        and name = "''app.log''"]
    by (simp add: example_log_def)
qed

section \<open>A change of the file on disk\<close>

lemma fileChangedOnDisk_attached:
  assumes att: "attached_file d = Some f"
  shows "fileChangedOnDisk disk filename d =
     (let d1 = d\<lparr>attached_file := Some (file_after_check disk f)\<rparr>;
          real_file_size = QFile_size disk (file_after_check disk f);
          file_size = getSize (indexing_data d)
      in if real_file_size < file_size
         then Inr ((enqueueOperation (FullIndexOperation None)
                      (d1\<lparr>fileChangedOnDisk_state := Truncated\<rparr>))
                   \<lparr>lastModifiedDate := QFileInfo_lastModified disk (fileName f),
                    emitted := emitted d @ [FileChanged Truncated]\<rparr>)
         else if real_file_size = file_size then Inr d1
         else if fileChangedOnDisk_state d \<noteq> DataAdded
         then Inr ((enqueueOperation PartialIndexOperation
                      (d1\<lparr>fileChangedOnDisk_state := DataAdded\<rparr>))
                   \<lparr>lastModifiedDate := QFileInfo_lastModified disk (fileName f),
                    emitted := emitted d @ [FileChanged DataAdded]\<rparr>)
         else Inr d1)"
proof (cases "QFileInfo_size disk (fileName f) \<noteq> QFile_size disk f \<or> device f = None")
  case True
  then have fa: "file_after_check disk f = QFile_open disk (fileName f)"
    unfolding file_after_check_def by (rule if_P)
  have ro: "reOpenFile disk d = Inr (d\<lparr>attached_file := Some (QFile_open disk (fileName f))\<rparr>)"
    using att by (simp add: reOpenFile_def)
  show ?thesis
    unfolding fileChangedOnDisk_def fa
    using att
    by (simp only: option.case if_P [OF True] ro sum.case Let_def)
       (simp add: enqueueOperation_def startOperation_def split: option.splits)
next
  case False
  then have fa: "file_after_check disk f = f"
    unfolding file_after_check_def by (rule if_not_P)
  have same: "d\<lparr>attached_file := Some f\<rparr> = d"
    using att by simp
  show ?thesis
    unfolding fileChangedOnDisk_def fa same
    using att
    by (simp only: option.case if_not_P [OF False] sum.case Let_def)
       (simp add: enqueueOperation_def startOperation_def split: option.splits)
qed

text \<open>
  C4. For a LogData with an attached file, \<open>fileChangedOnDisk\<close> returns, and with
  \<open>S_now\<close> the size of the attached file after the size check and \<open>S_indexed\<close> the
  indexed size: if \<open>S_now < S_indexed\<close> the state is Truncated and the queue is as
  after enqueueing a full index with no forced encoding; if \<open>S_now = S_indexed\<close> the
  state and the queue are as before; if \<open>S_now > S_indexed\<close> and the state was not
  DataAdded, the state is DataAdded and the queue is as after enqueueing a partial index;
  if \<open>S_now > S_indexed\<close> and the state was DataAdded, state and queue are as before.
\<close>

theorem fileChangedOnDisk_cases:
  assumes att: "attached_file d = Some f"
  shows "\<exists>d'. fileChangedOnDisk disk filename d = Inr d' \<and>
     (let S_now = QFile_size disk (file_after_check disk f);
          S_indexed = getSize (indexing_data d)
      in attached_file d' = Some (file_after_check disk f) \<and>
         (S_now < S_indexed \<longrightarrow>
            fileChangedOnDisk_state d' = Truncated \<and>
            operation_queue d' = operation_queue (enqueueOperation (FullIndexOperation None) d)) \<and>
         (S_now = S_indexed \<longrightarrow>
            fileChangedOnDisk_state d' = fileChangedOnDisk_state d \<and>
            operation_queue d' = operation_queue d) \<and>
         (S_indexed < S_now \<and> fileChangedOnDisk_state d \<noteq> DataAdded \<longrightarrow>
            fileChangedOnDisk_state d' = DataAdded \<and>
            operation_queue d' = operation_queue (enqueueOperation PartialIndexOperation d)) \<and>
         (S_indexed < S_now \<and> fileChangedOnDisk_state d = DataAdded \<longrightarrow>
            fileChangedOnDisk_state d' = DataAdded \<and>
            operation_queue d' = operation_queue d))"
  unfolding fileChangedOnDisk_attached [OF att] Let_def
  by (auto simp: operation_queue_def enqueueOperation_def startOperation_def
      split: option.splits)

text \<open>
  A file indexed at 17 bytes that now has 6 bytes, 17 bytes, 23 bytes, and 23 bytes with
  the state already DataAdded.
\<close>

theorem fileChangedOnDisk_cases_witness:
  "(\<exists>d'. fileChangedOnDisk (example_disk ''alpha\<newline>'') ''app.log''
            (example_log ''alpha\<newline>beta\<newline>gamma\<newline>'' ''alpha\<newline>'') = Inr d' \<and>
         fileChangedOnDisk_state d' = Truncated \<and>
         operation_queue d' = (Some (FullIndexOperation None), None, [IndexAllCall None])) \<and>
   (\<exists>d'. fileChangedOnDisk (example_disk ''alpha\<newline>beta\<newline>gamma\<newline>'') ''app.log''
            (example_log ''alpha\<newline>beta\<newline>gamma\<newline>'' ''alpha\<newline>beta\<newline>gamma\<newline>'') = Inr d' \<and>
         fileChangedOnDisk_state d' = Unchanged \<and>
         operation_queue d' = (None, None, [])) \<and>
   (\<exists>d'. fileChangedOnDisk (example_disk ''alpha\<newline>beta\<newline>gamma\<newline>delta\<newline>'') ''app.log''
            (example_log ''alpha\<newline>beta\<newline>gamma\<newline>'' ''alpha\<newline>beta\<newline>gamma\<newline>delta\<newline>'') = Inr d' \<and>
         fileChangedOnDisk_state d' = DataAdded \<and>
         operation_queue d' = (Some PartialIndexOperation, None, [IndexAdditionalLinesCall])) \<and>
   (\<exists>d'. fileChangedOnDisk (example_disk ''alpha\<newline>beta\<newline>gamma\<newline>delta\<newline>'') ''app.log''
            ((example_log ''alpha\<newline>beta\<newline>gamma\<newline>'' ''alpha\<newline>beta\<newline>gamma\<newline>delta\<newline>'')
               \<lparr>fileChangedOnDisk_state := DataAdded\<rparr>) = Inr d' \<and>
         fileChangedOnDisk_state d' = DataAdded \<and>
         operation_queue d' = (None, None, []))"
proof (intro conjI)
  let ?indexed = "''alpha\<newline>beta\<newline>gamma\<newline>''"
  let ?grown = "''alpha\<newline>beta\<newline>gamma\<newline>delta\<newline>''"
  show "\<exists>d'. fileChangedOnDisk (example_disk ''alpha\<newline>'') ''app.log''
            (example_log ?indexed ''alpha\<newline>'') = Inr d' \<and>
         fileChangedOnDisk_state d' = Truncated \<and>
         operation_queue d' = (Some (FullIndexOperation None), None, [IndexAllCall None])"
    using fileChangedOnDisk_cases [OF example_sizes(6) [of ?indexed "''alpha\<newline>''"],
        where disk = "example_disk ''alpha\<newline>''" and filename = "''app.log''"]
    by (auto simp: example_file_after_check example_sizes example_idle Let_def
        operation_queue_def enqueue_idle)
  show "\<exists>d'. fileChangedOnDisk (example_disk ?indexed) ''app.log''
            (example_log ?indexed ?indexed) = Inr d' \<and>
         fileChangedOnDisk_state d' = Unchanged \<and>
         operation_queue d' = (None, None, [])"
    using fileChangedOnDisk_cases [OF example_sizes(6) [of ?indexed ?indexed],
        where disk = "example_disk ?indexed" and filename = "''app.log''"]
    by (auto simp: example_file_after_check example_sizes example_idle Let_def
        operation_queue_def)
  show "\<exists>d'. fileChangedOnDisk (example_disk ?grown) ''app.log''
            (example_log ?indexed ?grown) = Inr d' \<and>
         fileChangedOnDisk_state d' = DataAdded \<and>
         operation_queue d' = (Some PartialIndexOperation, None, [IndexAdditionalLinesCall])"
    using fileChangedOnDisk_cases [OF example_sizes(6) [of ?indexed ?grown],
        where disk = "example_disk ?grown" and filename = "''app.log''"]
    by (auto simp: example_file_after_check example_sizes example_idle Let_def
        operation_queue_def enqueue_idle)
  have att: "attached_file ((example_log ?indexed ?grown)\<lparr>fileChangedOnDisk_state := DataAdded\<rparr>) =
      Some (QFile_open (example_disk ?grown) ''app.log'')"
    by (simp add: example_sizes)
  show "\<exists>d'. fileChangedOnDisk (example_disk ?grown) ''app.log''
            ((example_log ?indexed ?grown)\<lparr>fileChangedOnDisk_state := DataAdded\<rparr>) = Inr d' \<and>
         fileChangedOnDisk_state d' = DataAdded \<and>
         operation_queue d' = (None, None, [])"
    using fileChangedOnDisk_cases [OF att,
        where disk = "example_disk ?grown" and filename = "''app.log''"]
    by (auto simp: example_file_after_check example_sizes example_idle Let_def
        operation_queue_def)
qed

section \<open>The end of an indexing operation\<close>

text \<open>
  C9. When an operation was running, \<open>indexingFinished\<close> sets the file-change state to
  Unchanged for every status. For a status other than Successful it leaves the watcher's
  files and the modification date as they were; for Successful, with a file attached,
  it adds the file's name to the watcher and takes the modification date from the disk
  (the invalid date when no file has the name).
\<close>

theorem indexingFinished_status:
  assumes "currentOperation d \<noteq> None"
  shows "(status \<noteq> Successful \<longrightarrow>
            (\<exists>d'. indexingFinished disk status d = Inr d' \<and>
                  fileChangedOnDisk_state d' = Unchanged \<and>
                  fileWatcher d' = fileWatcher d \<and>
                  lastModifiedDate d' = lastModifiedDate d)) \<and>
         (status = Successful \<and> attached_file d = Some f \<longrightarrow>
            (\<exists>d'. indexingFinished disk status d = Inr d' \<and>
                  fileChangedOnDisk_state d' = Unchanged \<and>
                  fileWatcher d' = fileWatcher d @ [fileName f] \<and>
                  lastModifiedDate d' = QFileInfo_lastModified disk (fileName f)))"
  using assms
  by (cases "nextOperation d")
     (auto simp: indexingFinished_def startOperation_def Let_def QFileInfo_exists_def
        QFileInfo_lastModified_def)

text \<open>
  A partial index that is interrupted, and one that succeeds, on a LogData in state
  DataAdded.
\<close>

theorem indexingFinished_status_witness:
  "(\<exists>d'. indexingFinished (example_disk ''x\<newline>y\<newline>'') Interrupted
            ((example_log ''x\<newline>'' ''x\<newline>y\<newline>'')
               \<lparr>currentOperation := Some PartialIndexOperation,
                fileChangedOnDisk_state := DataAdded\<rparr>) = Inr d' \<and>
         fileChangedOnDisk_state d' = Unchanged \<and>
         fileWatcher d' = [] \<and>
         lastModifiedDate d' = None) \<and>
   (\<exists>d'. indexingFinished (example_disk ''x\<newline>y\<newline>'') Successful
            ((example_log ''x\<newline>'' ''x\<newline>y\<newline>'')
               \<lparr>currentOperation := Some PartialIndexOperation,
                fileChangedOnDisk_state := DataAdded\<rparr>) = Inr d' \<and>
         fileChangedOnDisk_state d' = Unchanged \<and>
         fileWatcher d' = [''app.log''] \<and>
         lastModifiedDate d' = Some 7)"
proof (intro conjI)
  let ?disk = "example_disk ''x\<newline>y\<newline>''"
  let ?d = "(example_log ''x\<newline>'' ''x\<newline>y\<newline>'')
               \<lparr>currentOperation := Some PartialIndexOperation,
                fileChangedOnDisk_state := DataAdded\<rparr>"
  have busy: "currentOperation ?d \<noteq> None"
    by simp
  have before: "fileWatcher ?d = []" "lastModifiedDate ?d = None"
    "attached_file ?d = Some (QFile_open ?disk ''app.log'')"
    by (simp_all add: example_log_def LogData_new_def)
  have stamp: "QFileInfo_lastModified ?disk ''app.log'' = Some 7"
    by (simp add: QFileInfo_lastModified_def example_disk_def)
  show "\<exists>d'. indexingFinished ?disk Interrupted ?d = Inr d' \<and>
         fileChangedOnDisk_state d' = Unchanged \<and> fileWatcher d' = [] \<and>
         lastModifiedDate d' = None"
    using indexingFinished_status [OF busy, where status = Interrupted and disk = ?disk]
    by (auto simp: before)
  show "\<exists>d'. indexingFinished ?disk Successful ?d = Inr d' \<and>
         fileChangedOnDisk_state d' = Unchanged \<and> fileWatcher d' = [''app.log''] \<and>
         lastModifiedDate d' = Some 7"
    using indexingFinished_status [OF busy, where status = Successful and disk = ?disk
        and f = "QFile_open ?disk ''app.log''"]
    by (auto simp: before stamp example_sizes)
qed

section \<open>The display encoding\<close>

lemma mibEnum_eq: "(mibEnum a = mibEnum b) = (a = b)"
  by (cases a; cases b) simp

text \<open>
  C8. For an encoding name the codec table knows and a LogData with an attached file,
  \<open>doSetDisplayEncoding\<close> returns and the codec of the object is the requested one.
  If its EncodingParameters differ from those of the current index codec (the forced
  encoding when set, else the guess), the worker is interrupted, the file is opened anew
  and a full index is enqueued, with no forced encoding when the requested codec is the
  guessed one and with the requested codec forced otherwise. If the EncodingParameters
  are the same, nothing but the codec changes. Calls reach the worker if and only if the
  EncodingParameters differ.
\<close>

theorem doSetDisplayEncoding_reload:
  assumes known: "codecForName encoding = Some c"
    and att: "attached_file d = Some f"
  shows "\<exists>d'. doSetDisplayEncoding codecForName EncodingParameters disk encoding d = Inr d' \<and>
     codec d' = Some c \<and>
     (EncodingParameters c \<noteq> EncodingParameters (currentIndexCodec (indexing_data d)) \<longrightarrow>
        d' = enqueueOperation
               (FullIndexOperation
                  (if c = getEncodingGuess (indexing_data d) then None else Some c))
               (d\<lparr>codec := Some c,
                  workerThread := workerThread d @ [InterruptCall],
                  attached_file := Some (QFile_open disk (fileName f))\<rparr>)) \<and>
     (EncodingParameters c = EncodingParameters (currentIndexCodec (indexing_data d)) \<longrightarrow>
        d' = d\<lparr>codec := Some c\<rparr>) \<and>
     ((workerThread d' \<noteq> workerThread d) =
        (EncodingParameters c \<noteq> EncodingParameters (currentIndexCodec (indexing_data d))))"
proof (cases "EncodingParameters c = EncodingParameters (currentIndexCodec (indexing_data d))")
  case True
  then show ?thesis
    using known
    by (simp add: doSetDisplayEncoding_def Let_def mibEnum_eq)
next
  case False
  then have ne: "c \<noteq> currentIndexCodec (indexing_data d)"
    by auto
  have run: "doSetDisplayEncoding codecForName EncodingParameters disk encoding d =
      reload disk (if c = getEncodingGuess (indexing_data d) then None else Some c)
        (d\<lparr>codec := Some c\<rparr>)"
    using known False ne
    by (simp add: doSetDisplayEncoding_def Let_def mibEnum_eq)
  have rel: "reload disk forced (d\<lparr>codec := Some c\<rparr>) =
      Inr (enqueueOperation (FullIndexOperation forced)
             (d\<lparr>codec := Some c,
                workerThread := workerThread d @ [InterruptCall],
                attached_file := Some (QFile_open disk (fileName f))\<rparr>))" for forced
    using att by (simp add: reload_def reOpenFile_def)
  show ?thesis
    unfolding run rel using False
    by (auto simp: enqueueOperation_def startOperation_def split: option.splits
        LogDataOperation.splits)
qed

text \<open>
  With the index guessed as ISO-8859-1: UTF-16LE forces a full index, ISO-8859-15 changes
  the codec only. With UTF-16LE forced: ISO-8859-1, the guess, gives a full index with
  no forced encoding.
\<close>

theorem doSetDisplayEncoding_reload_witness:
  "(\<exists>d'. doSetDisplayEncoding example_codecs example_parameters (example_disk ''x\<newline>'')
            ''UTF-16LE'' (example_log ''x\<newline>'' ''x\<newline>'') = Inr d' \<and>
         codec d' = Some (Codec 1014) \<and>
         operation_queue d' =
           (Some (FullIndexOperation (Some (Codec 1014))), None,
            [InterruptCall, IndexAllCall (Some (Codec 1014))])) \<and>
   doSetDisplayEncoding example_codecs example_parameters (example_disk ''x\<newline>'')
       ''ISO-8859-15'' (example_log ''x\<newline>'' ''x\<newline>'') =
     Inr ((example_log ''x\<newline>'' ''x\<newline>'')\<lparr>codec := Some (Codec 111)\<rparr>) \<and>
   (\<exists>d'. doSetDisplayEncoding example_codecs example_parameters (example_disk ''x\<newline>'')
            ''ISO-8859-1''
            ((example_log ''x\<newline>'' ''x\<newline>'')
               \<lparr>indexing_data := index_all (Codec 4) (Some (Codec 1014)) 0 [],
                codec := Some (Codec 1014)\<rparr>) = Inr d' \<and>
         codec d' = Some (Codec 4) \<and>
         operation_queue d' =
           (Some (FullIndexOperation None), None, [InterruptCall, IndexAllCall None]))"
proof (intro conjI)
  let ?d = "example_log ''x\<newline>'' ''x\<newline>''"
  let ?disk = "example_disk ''x\<newline>''"
  let ?wide = "?d\<lparr>indexing_data := index_all (Codec 4) (Some (Codec 1014)) 0 [],
                  codec := Some (Codec 1014)\<rparr>"
  have utf16: "example_codecs ''UTF-16LE'' = Some (Codec 1014)"
    and latin9: "example_codecs ''ISO-8859-15'' = Some (Codec 111)"
    and latin1: "example_codecs ''ISO-8859-1'' = Some (Codec 4)"
    by (simp_all add: example_codecs_def)
  have att: "attached_file ?d = Some (QFile_open ?disk ''app.log'')"
    by (rule example_sizes)
  have att_wide: "attached_file ?wide = Some (QFile_open ?disk ''app.log'')"
    by (simp add: example_sizes)
  show "\<exists>d'. doSetDisplayEncoding example_codecs example_parameters ?disk ''UTF-16LE'' ?d = Inr d' \<and>
         codec d' = Some (Codec 1014) \<and>
         operation_queue d' =
           (Some (FullIndexOperation (Some (Codec 1014))), None,
            [InterruptCall, IndexAllCall (Some (Codec 1014))])"
    using doSetDisplayEncoding_reload [where codecForName = example_codecs
        and encoding = "''UTF-16LE''" and EncodingParameters = example_parameters and disk = ?disk,
        OF utf16 att]
    by (auto simp: example_index_codec example_parameters_def example_sizes example_idle
        enqueue_idle operation_queue_def)
  show "doSetDisplayEncoding example_codecs example_parameters ?disk ''ISO-8859-15'' ?d =
      Inr (?d\<lparr>codec := Some (Codec 111)\<rparr>)"
    using doSetDisplayEncoding_reload [where codecForName = example_codecs
        and encoding = "''ISO-8859-15''" and EncodingParameters = example_parameters and disk = ?disk,
        OF latin9 att]
    by (auto simp: example_index_codec example_parameters_def)
  show "\<exists>d'. doSetDisplayEncoding example_codecs example_parameters ?disk ''ISO-8859-1'' ?wide = Inr d' \<and>
         codec d' = Some (Codec 4) \<and>
         operation_queue d' =
           (Some (FullIndexOperation None), None, [InterruptCall, IndexAllCall None])"
    using doSetDisplayEncoding_reload [where codecForName = example_codecs
        and encoding = "''ISO-8859-1''" and EncodingParameters = example_parameters and disk = ?disk,
        OF latin1 att_wide]
    by (auto simp: example_index_codec example_parameters_def example_sizes example_idle
        enqueue_idle operation_queue_def)
qed

section \<open>Reads outside the indexed lines\<close>

text \<open>
  C7. For a line number at or past the number of lines, \<open>doGetLineString\<close> and
  \<open>doGetExpandedLineString\<close> return the empty string and \<open>doGetLineLength\<close> returns
  0, and the object is untouched. For a range of one line or more whose last line is at
  or past the number of lines, \<open>doGetLines\<close> and \<open>doGetExpandedLines\<close> return the
  empty sequence and log a warning. A new LogData has no attached file, no lines, longest
  line 0 and size 0, and each of the five reads returns empty or zero on it for all
  arguments.
\<close>

theorem out_of_range_reads_empty:
  "(doGetNbLine d \<le> n \<longrightarrow>
      doGetLineString toUnicode d n = Inr ([], d) \<and>
      doGetExpandedLineString toUnicode d n = Inr ([], d) \<and>
      doGetLineLength toUnicode d n = Inr (0, d)) \<and>
   (0 < number \<and> doGetNbLine d \<le> first_line + number - 1 \<longrightarrow>
      doGetLines toUnicode d first_line number =
        Inr ([], d\<lparr>warnings := warnings d @
                       [''LogData::doGetLines Lines out of bound asked for'']\<rparr>) \<and>
      doGetExpandedLines toUnicode d first_line number =
        Inr ([], d\<lparr>warnings := warnings d @
                       [''LogData::doGetExpandedLines Lines out of bound asked for'']\<rparr>)) \<and>
   (let new = LogData_new codecForName guess
    in attached_file new = None \<and> doGetNbLine new = 0 \<and> doGetMaxLength new = 0 \<and>
       getFileSize new = 0 \<and>
       returned (doGetLineString toUnicode new n) = Inr [] \<and>
       returned (doGetExpandedLineString toUnicode new n) = Inr [] \<and>
       returned (doGetLineLength toUnicode new n) = Inr 0 \<and>
       returned (doGetLines toUnicode new first_line number) = Inr [] \<and>
       returned (doGetExpandedLines toUnicode new first_line number) = Inr [])"
  by (simp add: doGetNbLine_def doGetLineString_def doGetExpandedLineString_def
      doGetLineLength_def doGetLines_def doGetExpandedLines_def LogData_new_def Let_def
      getNbLines_def doGetMaxLength_def getMaxLength_def getFileSize_def getSize_def
      returned_def)

text \<open>Line 3 and the range of lines 2 and 3 of a file of three lines.\<close>

theorem out_of_range_reads_empty_witness:
  "doGetLineString latin1 (example_log ''alpha\<newline>beta\<newline>gamma\<newline>'' ''alpha\<newline>beta\<newline>gamma\<newline>'') 3 =
     Inr ([], example_log ''alpha\<newline>beta\<newline>gamma\<newline>'' ''alpha\<newline>beta\<newline>gamma\<newline>'') \<and>
   doGetLineLength latin1 (example_log ''alpha\<newline>beta\<newline>gamma\<newline>'' ''alpha\<newline>beta\<newline>gamma\<newline>'') 3 =
     Inr (0, example_log ''alpha\<newline>beta\<newline>gamma\<newline>'' ''alpha\<newline>beta\<newline>gamma\<newline>'') \<and>
   returned (doGetLines latin1
      (example_log ''alpha\<newline>beta\<newline>gamma\<newline>'' ''alpha\<newline>beta\<newline>gamma\<newline>'') 2 2) = Inr [] \<and>
   returned (doGetExpandedLines latin1
      (example_log ''alpha\<newline>beta\<newline>gamma\<newline>'' ''alpha\<newline>beta\<newline>gamma\<newline>'') 2 2) = Inr [] \<and>
   returned (doGetLines latin1 (LogData_new example_codecs (Codec 4)) 0 1) = Inr []"
  using out_of_range_reads_empty [where d = "example_log ''alpha\<newline>beta\<newline>gamma\<newline>'' ''alpha\<newline>beta\<newline>gamma\<newline>''"
        and n = 3 and first_line = 2 and number = 2 and toUnicode = latin1]
    out_of_range_reads_empty [where codecForName = example_codecs and guess = "Codec 4"
        and first_line = 0 and number = 1 and toUnicode = latin1]
  by (simp add: example_nb_lines returned_def Let_def)

text \<open>
  C10. For every first line, also one past the last line, \<open>doGetLines\<close> and
  \<open>doGetExpandedLines\<close> with count 0 return the empty sequence and leave the object as
  it was: the file was not touched and no warning was logged. (A range of one line or
  more that ends past the last line does log a warning: see C7.)
\<close>

theorem doGetLines_zero:
  "doGetLines toUnicode d first_line 0 = Inr ([], d) \<and>
   doGetExpandedLines toUnicode d first_line 0 = Inr ([], d)"
  by (simp add: doGetLines_def doGetExpandedLines_def)

section \<open>No method detaches the file\<close>

text \<open>
  Once a file is attached it stays attached through every method that returns, so
  \<open>attachFile\<close> keeps throwing CantReattachErr whatever was called in between.
\<close>

lemma attached_file_stays:
  assumes att: "attached_file d \<noteq> None"
  shows "attached_file (enqueueOperation operation d) \<noteq> None"
    and "attached_file (interruptLoading d) \<noteq> None"
    and "reload disk forcedEncoding d = Inr d' \<Longrightarrow> attached_file d' \<noteq> None"
    and "fileChangedOnDisk disk filename d = Inr d' \<Longrightarrow> attached_file d' \<noteq> None"
    and "indexingFinished disk status d = Inr d' \<Longrightarrow> attached_file d' \<noteq> None"
    and "doSetDisplayEncoding codecForName EncodingParameters disk encoding d = Inr d' \<Longrightarrow>
         attached_file d' \<noteq> None"
proof -
  from att obtain f where f: "attached_file d = Some f" by auto
  have enq: "attached_file (enqueueOperation operation x) = attached_file x" for operation x
    by (simp add: enqueueOperation_def startOperation_def split: option.splits)
  show "attached_file (enqueueOperation operation d) \<noteq> None"
    using att by (simp add: enq)
  show "attached_file (interruptLoading d) \<noteq> None"
    using att by (simp add: interruptLoading_def)
  have rel: "reload disk forced x = Inr x' \<Longrightarrow> attached_file x' \<noteq> None" for forced x x'
    by (auto simp: reload_def reOpenFile_def enq split: option.splits)
  show "reload disk forcedEncoding d = Inr d' \<Longrightarrow> attached_file d' \<noteq> None"
    by (rule rel)
  show "fileChangedOnDisk disk filename d = Inr d' \<Longrightarrow> attached_file d' \<noteq> None"
    unfolding fileChangedOnDisk_attached [OF f] Let_def
    by (auto simp: enq split: if_splits)
  show "indexingFinished disk status d = Inr d' \<Longrightarrow> attached_file d' \<noteq> None"
    using f
    by (auto simp: indexingFinished_def startOperation_def Let_def
        split: if_splits option.splits)
  show "doSetDisplayEncoding codecForName EncodingParameters disk encoding d = Inr d' \<Longrightarrow>
         attached_file d' \<noteq> None"
    using f
    by (auto simp: doSetDisplayEncoding_def Let_def split: option.splits if_splits dest: rel)
qed

end
